theory Spec2Isabelle
  imports Complex_Main "HOL-Library.Log_Nat"
begin

text \<open>
  The spreadsheet import of the sales application (\<open>Gestao_Vendas.py\<close>): the
  column mapper (\<open>guess_mapping\<close>, \<open>tentar_mapeamento_automatico\<close>), the mapping
  window (\<open>ImportMappingWindow\<close>), the worker that converts the rows and inserts the
  batch (\<open>_worker_import\<close>) and the bulk insert of the record store
  (\<open>DatabaseManager.insert_multiple_sales\<close>), as functions of HOL. What the program
  leaves to its libraries is a parameter of the model: the text of a float
  (\<open>float_repr\<close>), the clock (\<open>now\<close>) and the failures of the database engine
  (\<open>fault\<close>). User interface calls are recorded as a list of events, printed warnings
  as a list of line numbers and exceptions.
\<close>

section \<open>Python strings\<close>

text \<open>
  A Python \<open>str\<close> is a sequence of code points. The model uses \<open>string\<close> with every
  \<open>char\<close> read as one code point of the range U+0000 .. U+00FF (Latin-1), which holds
  every character of the keyword tables and sentinel texts of the program
  (\<open>CHR 0xE7\<close> is c-cedilla, \<open>CHR 0xE3\<close> is a-tilde). Code points above U+00FF are
  outside the model.
\<close>

definition upper_letters :: string where
  "upper_letters = ''ABCDEFGHIJKLMNOPQRSTUVWXYZ'' @
     [
        CHR 0xC0, CHR 0xC1, CHR 0xC2, CHR 0xC3, CHR 0xC4, CHR 0xC5, CHR 0xC6, CHR 0xC7,
        CHR 0xC8, CHR 0xC9, CHR 0xCA, CHR 0xCB, CHR 0xCC, CHR 0xCD, CHR 0xCE, CHR 0xCF,
        CHR 0xD0, CHR 0xD1, CHR 0xD2, CHR 0xD3, CHR 0xD4, CHR 0xD5, CHR 0xD6, CHR 0xD8,
        CHR 0xD9, CHR 0xDA, CHR 0xDB, CHR 0xDC, CHR 0xDD, CHR 0xDE]"

definition lower_letters :: string where
  "lower_letters = ''abcdefghijklmnopqrstuvwxyz'' @
     [
        CHR 0xE0, CHR 0xE1, CHR 0xE2, CHR 0xE3, CHR 0xE4, CHR 0xE5, CHR 0xE6, CHR 0xE7,
        CHR 0xE8, CHR 0xE9, CHR 0xEA, CHR 0xEB, CHR 0xEC, CHR 0xED, CHR 0xEE, CHR 0xEF,
        CHR 0xF0, CHR 0xF1, CHR 0xF2, CHR 0xF3, CHR 0xF4, CHR 0xF5, CHR 0xF6, CHR 0xF8,
        CHR 0xF9, CHR 0xFA, CHR 0xFB, CHR 0xFC, CHR 0xFD, CHR 0xFE]"

text \<open>
  \<open>str.lower\<close> on Latin-1: the letters A-Z and U+00C0 .. U+00DE (the multiplication
  sign U+00D7 excepted) move to their lower-case partner, every other code point stays.
\<close>

definition lower_char :: "char \<Rightarrow> char" where
  "lower_char c = (case map_of (zip upper_letters lower_letters) c of Some d \<Rightarrow> d | None \<Rightarrow> c)"

definition lower :: "string \<Rightarrow> string" where
  "lower s = map lower_char s"

text \<open>
  The code points of Latin-1 for which \<open>str.isspace\<close> holds: U+0009 .. U+000D,
  U+001C .. U+0020, U+0085 and U+00A0.
\<close>

definition whitespace :: string where
  "whitespace = [CHR 0x09, CHR 0x0A, CHR 0x0B, CHR 0x0C, CHR 0x0D, CHR 0x1C, CHR 0x1D,
                 CHR 0x1E, CHR 0x1F, CHR 0x20, CHR 0x85, CHR 0xA0]"

definition isspace :: "char \<Rightarrow> bool" where
  "isspace c = (c \<in> set whitespace)"

definition strip :: "string \<Rightarrow> string" where
  "strip s = rev (dropWhile isspace (rev (dropWhile isspace s)))"

fun startswith :: "string \<Rightarrow> string \<Rightarrow> bool" where
  "startswith s [] = True"
| "startswith [] (t # ts) = False"
| "startswith (c # cs) (t # ts) = (c = t \<and> startswith cs ts)"

text \<open>\<open>py_in t s\<close> is Python's \<open>t in s\<close> on strings: \<open>t\<close> occurs in \<open>s\<close> as a substring.\<close>

fun py_in :: "string \<Rightarrow> string \<Rightarrow> bool" where
  "py_in t [] = (t = [])"
| "py_in t (c # cs) = (startswith (c # cs) t \<or> py_in t cs)"

text \<open>\<open>any_in terms col\<close> is \<open>any(term in col for term in terms)\<close>.\<close>

definition any_in :: "string list \<Rightarrow> string \<Rightarrow> bool" where
  "any_in terms col = list_ex (\<lambda>t. py_in t col) terms"

fun replace_char :: "char \<Rightarrow> char \<Rightarrow> string \<Rightarrow> string" where
  "replace_char a b [] = []"
| "replace_char a b (c # cs) = (if c = a then b else c) # replace_char a b cs"

section \<open>The column mapper\<close>

abbreviation F_CLIENTE :: string where "F_CLIENTE \<equiv> ''Nome do Cliente''"
abbreviation F_PRODUTO :: string where "F_PRODUTO \<equiv> ''Nome do Produto''"
abbreviation F_QUANTIDADE :: string where "F_QUANTIDADE \<equiv> ''Quantidade''"
abbreviation F_VALOR :: string where "F_VALOR \<equiv> ''Valor por unidade (R$)''"
abbreviation F_PAGAMENTO :: string where "F_PAGAMENTO \<equiv> ''Tipo de Pagamento''"
abbreviation F_VENDEDOR :: string where "F_VENDEDOR \<equiv> ''Nome do Vendedor''"
abbreviation IGNORAR :: string where "IGNORAR \<equiv> ''Ignorar''"

definition system_fields :: "string list" where
  "system_fields = [F_CLIENTE, F_PRODUTO, F_QUANTIDADE, F_VALOR, F_PAGAMENTO, F_VENDEDOR]"

definition required_fields :: "string set" where
  "required_fields = {F_CLIENTE, F_PRODUTO, F_QUANTIDADE, F_VALOR}"

text \<open>\<open>guess_mapping\<close>: the cascade of substring tests, in the order of the source.\<close>

definition guess_mapping :: "string \<Rightarrow> string" where
  "guess_mapping column_name =
     (let col = strip (lower column_name)
      in if any_in [''cliente'', ''comprador''] col then F_CLIENTE
         else if any_in [''produto'', ''item'', ''descri'' @ [CHR 0xE7, CHR 0xE3] @ ''o''] col
           then F_PRODUTO
         else if any_in [''qtd'', ''quant'', ''quantidade''] col then F_QUANTIDADE
         else if any_in [''valor unit'', ''pre'' @ [CHR 0xE7] @ ''o unit'', ''preco unit'',
                         ''valor unid'', ''pre'' @ [CHR 0xE7] @ ''o unid''] col
           then F_VALOR
         else if py_in ''vendedor'' col then F_VENDEDOR
         else if any_in [''valor'', ''pre'' @ [CHR 0xE7] @ ''o'', ''preco''] col then F_VALOR
         else if py_in ''pagamento'' col \<or> any_in [''forma'', ''tipo''] col then F_PAGAMENTO
         else if py_in ''nome'' col then F_CLIENTE
         else IGNORAR)"

text \<open>
  A mapping is a Python \<open>dict\<close> from sheet column to system field; the association list
  keeps its insertion order, which is the order \<open>mapping.items()\<close> iterates in.
\<close>

type_synonym mapping = "(string \<times> string) list"

text \<open>\<open>d[k] = v\<close>: an existing key keeps its place and takes the new value, a new key goes last.\<close>

fun dict_set :: "('k \<times> 'v) list \<Rightarrow> 'k \<Rightarrow> 'v \<Rightarrow> ('k \<times> 'v) list" where
  "dict_set [] k v = [(k, v)]"
| "dict_set ((k', v') # d) k v = (if k' = k then (k, v) # d else (k', v') # dict_set d k v)"

text \<open>
  The inner loop of \<open>tentar_mapeamento_automatico\<close>: the first column that
  \<open>guess_mapping\<close> classifies as \<open>field\<close> and that is not yet a key of the mapping; the
  \<open>break\<close> ends the scan there.
\<close>

fun scan_columns :: "string \<Rightarrow> mapping \<Rightarrow> string list \<Rightarrow> string option" where
  "scan_columns field mapping [] = None"
| "scan_columns field mapping (col # cols) =
     (if guess_mapping col = field \<and> col \<notin> set (map fst mapping) then Some col
      else scan_columns field mapping cols)"

text \<open>The outer loop over \<open>self.system_fields\<close>, threading \<open>mapping\<close> and \<open>found_fields\<close>.\<close>

fun map_fields :: "string list \<Rightarrow> string list \<Rightarrow> mapping \<times> string set \<Rightarrow> mapping \<times> string set" where
  "map_fields [] sheet_columns (mapping, found_fields) = (mapping, found_fields)"
| "map_fields (field # fields) sheet_columns (mapping, found_fields) =
     (case scan_columns field mapping sheet_columns of
        None \<Rightarrow> map_fields fields sheet_columns (mapping, found_fields)
      | Some col \<Rightarrow>
          map_fields fields sheet_columns
            (dict_set mapping col field,
             if field \<in> required_fields then insert field found_fields else found_fields))"

definition tentar_mapeamento_automatico :: "string list \<Rightarrow> mapping \<times> string set" where
  "tentar_mapeamento_automatico sheet_columns =
     (let (mapping, found_fields) = map_fields system_fields sheet_columns ([], {})
      in (mapping, required_fields - found_fields))"

section \<open>Python exceptions, integers and floats\<close>

datatype py_exc = KeyError | ValueError | TypeError | OverflowError

text \<open>
  Every operation that can raise returns \<open>py_exc + 'a\<close>, with \<open>Inl\<close> the exception;
  \<open>bind_exc\<close> sequences two of them as consecutive statements inside one \<open>try\<close> do.
\<close>

definition bind_exc :: "py_exc + 'a \<Rightarrow> ('a \<Rightarrow> py_exc + 'b) \<Rightarrow> py_exc + 'b" where
  "bind_exc x f = (case x of Inl e \<Rightarrow> Inl e | Inr v \<Rightarrow> f v)"

text \<open>
  A Python \<open>float\<close> is an IEEE binary64 value: a finite rational that binary64 represents,
  an infinity, or not-a-number. The two signed zeros are not told apart (they compare
  equal in the program, which only tests \<open>< 0\<close>).
\<close>

datatype pyfloat = Finite rat | PInf | NInf | NaN

definition pow2 :: "int \<Rightarrow> rat" where
  "pow2 k = (if 0 \<le> k then 2 ^ nat k else 1 / 2 ^ nat (- k))"

definition pow10 :: "int \<Rightarrow> rat" where
  "pow10 k = (if 0 \<le> k then 10 ^ nat k else 1 / 10 ^ nat (- k))"

text \<open>
  For \<open>0 < a\<close>, \<open>ilog2 a\<close> is the exponent \<open>e\<close> with \<open>2^e \<le> a < 2^(e+1)\<close>
  (\<open>bitlen n\<close> is the number of binary digits of \<open>n\<close>).
\<close>

definition ilog2 :: "rat \<Rightarrow> int" where
  "ilog2 a =
     (if 1 \<le> a then bitlen \<lfloor>a\<rfloor> - 1 else - bitlen (\<lceil>1 / a\<rceil> - 1))"

definition round_half_even :: "rat \<Rightarrow> int" where
  "round_half_even x =
     (let f = \<lfloor>x\<rfloor>; d = x - of_int f
      in if d < 1 / 2 then f else if 1 / 2 < d then f + 1 else if even f then f else f + 1)"

text \<open>
  Rounding of an exact value to binary64, to nearest with ties to even: 53 significant
  bits, the unit in the last place never below \<open>2^-1074\<close> (subnormals), and infinity
  once the rounded magnitude reaches \<open>2^1024\<close>.
\<close>

definition round_b64 :: "rat \<Rightarrow> pyfloat" where
  "round_b64 x =
     (if x = 0 then Finite 0
      else let a = \<bar>x\<bar>;
               e = max (ilog2 a) (- 1022);
               u = pow2 (e - 52);
               r = of_int (round_half_even (a / u)) * u
           in if pow2 1024 \<le> r then (if x < 0 then NInf else PInf)
              else Finite (if x < 0 then - r else r))"

text \<open>The test \<open>x < 0\<close> on a float: false for not-a-number.\<close>

definition float_lt_zero :: "pyfloat \<Rightarrow> bool" where
  "float_lt_zero x = (case x of Finite r \<Rightarrow> r < 0 | NInf \<Rightarrow> True | PInf \<Rightarrow> False | NaN \<Rightarrow> False)"

definition float_sgn :: "pyfloat \<Rightarrow> int" where
  "float_sgn x =
     (case x of
        Finite r \<Rightarrow> (if r < 0 then - 1 else if r = 0 then 0 else 1)
      | PInf \<Rightarrow> 1 | NInf \<Rightarrow> - 1 | NaN \<Rightarrow> 0)"

definition float_mul :: "pyfloat \<Rightarrow> pyfloat \<Rightarrow> pyfloat" where
  "float_mul x y =
     (case (x, y) of
        (Finite a, Finite b) \<Rightarrow> round_b64 (a * b)
      | _ \<Rightarrow> if x = NaN \<or> y = NaN then NaN
             else let s = float_sgn x * float_sgn y
                  in if s = 0 then NaN else if 0 < s then PInf else NInf)"

text \<open>
  The conversion of an \<open>int\<close> operand to \<open>float\<close>: correctly rounded, and
  \<open>OverflowError\<close> when the integer is too large for a float.
\<close>

definition int_to_float :: "int \<Rightarrow> py_exc + pyfloat" where
  "int_to_float n =
     (case round_b64 (of_int n) of Finite r \<Rightarrow> Inr (Finite r) | _ \<Rightarrow> Inl OverflowError)"

text \<open>\<open>n * x\<close> for an \<open>int\<close> \<open>n\<close> and a \<open>float\<close> \<open>x\<close>.\<close>

definition int_mul_float :: "int \<Rightarrow> pyfloat \<Rightarrow> py_exc + pyfloat" where
  "int_mul_float n x = bind_exc (int_to_float n) (\<lambda>y. Inr (float_mul y x))"

text \<open>\<open>int(x)\<close> for a float: truncation towards zero.\<close>

definition float_to_int :: "pyfloat \<Rightarrow> py_exc + int" where
  "float_to_int x =
     (case x of
        Finite r \<Rightarrow> Inr (if 0 \<le> r then \<lfloor>r\<rfloor> else \<lceil>r\<rceil>)
      | NaN \<Rightarrow> Inl ValueError
      | _ \<Rightarrow> Inl OverflowError)"

subsection \<open>Parsing numbers from text\<close>

text \<open>
  \<open>int(s)\<close> and \<open>float(s)\<close> skip leading and trailing white space; of Latin-1 these
  are U+0009 .. U+000D, the space, U+0085 and U+00A0 (not U+001C .. U+001F, which
  \<open>str.strip\<close> does remove).
\<close>

definition num_space :: string where
  "num_space = [CHR 0x09, CHR 0x0A, CHR 0x0B, CHR 0x0C, CHR 0x0D, CHR 0x20, CHR 0x85, CHR 0xA0]"

definition num_strip :: "string \<Rightarrow> string" where
  "num_strip s =
     rev (dropWhile (\<lambda>c. c \<in> set num_space) (rev (dropWhile (\<lambda>c. c \<in> set num_space) s)))"

definition digit_of :: "char \<Rightarrow> nat option" where
  "digit_of c = map_of (zip ''0123456789'' [0, 1, 2, 3, 4, 5, 6, 7, 8, 9]) c"

definition isdigit :: "char \<Rightarrow> bool" where
  "isdigit c = (digit_of c \<noteq> None)"

text \<open>
  Underscores are allowed between two digits only; \<open>prev\<close> is the character before
  the one looked at. The result is the text without its underscores.
\<close>

fun strip_underscores :: "char \<Rightarrow> string \<Rightarrow> string option" where
  "strip_underscores prev [] = (if prev = CHR ''_'' then None else Some [])"
| "strip_underscores prev (c # cs) =
     (if c = CHR ''_'' then (if isdigit prev then strip_underscores c cs else None)
      else if prev = CHR ''_'' \<and> \<not> isdigit c then None
      else map_option ((#) c) (strip_underscores c cs))"

fun digits_acc :: "nat \<Rightarrow> string \<Rightarrow> nat option" where
  "digits_acc acc [] = Some acc"
| "digits_acc acc (c # cs) =
     (case digit_of c of None \<Rightarrow> None | Some v \<Rightarrow> digits_acc (10 * acc + v) cs)"

text \<open>The value of a non-empty run of decimal digits.\<close>

definition digits_val :: "string \<Rightarrow> nat option" where
  "digits_val ds = (if ds = [] then None else digits_acc 0 ds)"

text \<open>An optional sign: whether it is a minus, and the rest.\<close>

definition split_sign :: "string \<Rightarrow> bool \<times> string" where
  "split_sign s =
     (case s of
        [] \<Rightarrow> (False, [])
      | c # cs \<Rightarrow> if c = CHR ''-'' then (True, cs) else if c = CHR ''+'' then (False, cs)
                 else (False, s))"

definition signed_int :: "string \<Rightarrow> int option" where
  "signed_int s =
     (let (neg, body) = split_sign s
      in map_option (\<lambda>n. if neg then - int n else int n) (digits_val body))"

text \<open>\<open>int(s)\<close> for a string, base ten. (The bound that recent interpreters put on
  the number of digits is not modelled.)\<close>

definition py_int_str :: "string \<Rightarrow> py_exc + int" where
  "py_int_str s =
     (let (neg, body) = split_sign (num_strip s)
      in case strip_underscores (CHR 0x00) body of
           None \<Rightarrow> Inl ValueError
         | Some ds \<Rightarrow>
             (case digits_val ds of
                None \<Rightarrow> Inl ValueError
              | Some n \<Rightarrow> Inr (if neg then - int n else int n)))"

text \<open>
  A decimal literal without sign: digits, an optional point and digits (one digit at
  least on either side), an optional exponent. The result is its exact value.
\<close>

definition decimal_val :: "string \<Rightarrow> rat option" where
  "decimal_val s =
     (let is_e = (\<lambda>c. c = CHR ''e'' \<or> c = CHR ''E'');
          mant = takeWhile (\<lambda>c. \<not> is_e c) s;
          rest = dropWhile (\<lambda>c. \<not> is_e c) s;
          ip = takeWhile (\<lambda>c. c \<noteq> CHR ''.'') mant;
          fp = drop 1 (dropWhile (\<lambda>c. c \<noteq> CHR ''.'') mant);
          ex = (if rest = [] then Some 0 else signed_int (drop 1 rest))
      in case (digits_val (ip @ fp), ex) of
           (Some m, Some k) \<Rightarrow>
             if list_all isdigit ip \<and> list_all isdigit fp
             then Some (of_nat m * pow10 (k - int (length fp))) else None
         | _ \<Rightarrow> None)"

text \<open>\<open>float(s)\<close> for a string.\<close>

definition py_float_str :: "string \<Rightarrow> py_exc + pyfloat" where
  "py_float_str s =
     (case strip_underscores (CHR 0x00) (num_strip s) of
        None \<Rightarrow> Inl ValueError
      | Some t \<Rightarrow>
          (let (neg, body) = split_sign t
           in if lower body = ''inf'' \<or> lower body = ''infinity''
                then Inr (if neg then NInf else PInf)
              else if lower body = ''nan'' then Inr NaN
              else case decimal_val body of
                     None \<Rightarrow> Inl ValueError
                   | Some r \<Rightarrow> Inr (round_b64 (if neg then - r else r))))"

section \<open>Rows of the sheet\<close>

text \<open>
  A cell as \<open>row[col]\<close> hands it over: text, an integer, a float, or an object of
  another kind that \<open>int\<close> refuses with \<open>TypeError\<close> (the timestamp of a date cell,
  say), of which only the text that \<open>str\<close> gives is kept.
\<close>

datatype cell = CStr string | CInt int | CFloat pyfloat | CObj string

text \<open>A row is a mapping from column label to cell; the data frame is the list of its rows,
  the row at position \<open>i\<close> carrying the index label \<open>i\<close>.\<close>

type_synonym row = "string \<rightharpoonup> cell"

definition digit_char :: "nat \<Rightarrow> char" where
  "digit_char d = ''0123456789'' ! d"

fun nat_repr :: "nat \<Rightarrow> string" where
  "nat_repr n = (if n < 10 then [digit_char n] else nat_repr (n div 10) @ [digit_char (n mod 10)])"

declare nat_repr.simps [simp del]

definition int_repr :: "int \<Rightarrow> string" where
  "int_repr n = (if n < 0 then CHR ''-'' # nat_repr (nat (- n)) else nat_repr (nat n))"

text \<open>
  \<open>str(x)\<close>. The text of a float is the shortest decimal that reads back as the same
  float; the function computing it is the parameter \<open>float_repr\<close>.
\<close>

definition py_str :: "(pyfloat \<Rightarrow> string) \<Rightarrow> cell \<Rightarrow> string" where
  "py_str float_repr x =
     (case x of CStr s \<Rightarrow> s | CInt n \<Rightarrow> int_repr n | CFloat f \<Rightarrow> float_repr f | CObj s \<Rightarrow> s)"

text \<open>\<open>int(x)\<close>.\<close>

definition py_int :: "cell \<Rightarrow> py_exc + int" where
  "py_int x =
     (case x of
        CStr s \<Rightarrow> py_int_str s
      | CInt n \<Rightarrow> Inr n
      | CFloat f \<Rightarrow> float_to_int f
      | CObj s \<Rightarrow> Inl TypeError)"

text \<open>\<open>d[k]\<close> on a dictionary or a row: \<open>KeyError\<close> for a missing key.\<close>

definition getitem :: "('k \<rightharpoonup> 'v) \<Rightarrow> 'k \<Rightarrow> py_exc + 'v" where
  "getitem d k = (case d k of None \<Rightarrow> Inl KeyError | Some v \<Rightarrow> Inr v)"

section \<open>Row conversion\<close>

record sale =
  nome_cliente :: string
  nome_produto :: string
  quantidade :: int
  preco :: pyfloat
  tipo_pagamento :: string
  preco_final :: pyfloat
  nome_vendedor :: string
  data_hora :: string

abbreviation NAO_INFORMADO :: string where
  "NAO_INFORMADO \<equiv> CHR ''N'' # CHR 0xE3 # ''o Informado''"

abbreviation IMPORTADO :: string where
  "IMPORTADO \<equiv> ''Importado''"

text \<open>\<open>system_to_sheet = {v: k for k, v in mapping.items()}\<close>: a later item overwrites
  an earlier one with the same field.\<close>

definition system_to_sheet :: "mapping \<Rightarrow> (string \<rightharpoonup> string)" where
  "system_to_sheet mapping = fold (\<lambda>(k, v) d. d(v \<mapsto> k)) mapping Map.empty"

text \<open>
  \<open>str(row.get(system_to_sheet.get(field), default))\<close>: the default is taken when the
  field has no column (the key is then \<open>None\<close>, which is no column label), or the row
  has no cell under that column.
\<close>

definition get_optional ::
  "(pyfloat \<Rightarrow> string) \<Rightarrow> (string \<rightharpoonup> string) \<Rightarrow> row \<Rightarrow> string \<Rightarrow> string \<Rightarrow> string" where
  "get_optional float_repr s2s row field dflt =
     (case s2s field of
        None \<Rightarrow> dflt
      | Some col \<Rightarrow> (case row col of None \<Rightarrow> dflt | Some c \<Rightarrow> py_str float_repr c))"

text \<open>\<open>float(text.replace(",", "."))\<close>, applied to the text of the unit-value cell.\<close>

definition parse_price :: "string \<Rightarrow> py_exc + pyfloat" where
  "parse_price text = py_float_str (replace_char CHR '','' CHR ''.'' text)"

text \<open>
  The body of the \<open>try\<close> for one row, up to the tuple it appends: \<open>Inl e\<close> when a
  statement raises \<open>e\<close>, \<open>Inr None\<close> when the validity test takes the \<open>continue\<close>,
  \<open>Inr (Some sale)\<close> otherwise. \<open>now\<close> is the text of \<open>datetime.now()\<close> for this row.
\<close>

definition convert_row ::
  "(pyfloat \<Rightarrow> string) \<Rightarrow> string \<Rightarrow> (string \<rightharpoonup> string) \<Rightarrow> row \<Rightarrow> py_exc + sale option" where
  "convert_row float_repr now s2s row =
     bind_exc (bind_exc (getitem s2s F_CLIENTE) (getitem row)) (\<lambda>c_cliente.
     bind_exc (bind_exc (getitem s2s F_PRODUTO) (getitem row)) (\<lambda>c_produto.
     bind_exc (bind_exc (bind_exc (getitem s2s F_QUANTIDADE) (getitem row)) py_int) (\<lambda>qtd.
     bind_exc (bind_exc (bind_exc (getitem s2s F_VALOR) (getitem row))
                 (\<lambda>c. parse_price (py_str float_repr c)))
       (\<lambda>preco_unitario.
     let cliente = py_str float_repr c_cliente;
         produto = py_str float_repr c_produto;
         pagamento = get_optional float_repr s2s row F_PAGAMENTO NAO_INFORMADO;
         vendedor = get_optional float_repr s2s row F_VENDEDOR IMPORTADO
     in if cliente = [] \<or> produto = [] \<or> qtd \<le> 0 \<or> float_lt_zero preco_unitario
        then Inr None
        else bind_exc (int_mul_float qtd preco_unitario) (\<lambda>total.
               Inr (Some \<lparr>nome_cliente = cliente, nome_produto = produto, quantidade = qtd,
                          preco = preco_unitario, tipo_pagamento = pagamento,
                          preco_final = total, nome_vendedor = vendedor,
                          data_hora = now\<rparr>))))))"

section \<open>The record store\<close>

text \<open>
  The table \<open>vendas\<close>: its rows with their \<open>id\<close>, and the counter of \<open>AUTOINCREMENT\<close>.
  The connection has the committed table and, while a transaction is open, the table as
  the transaction sees it.
\<close>

record table =
  rows :: "(nat \<times> sale) list"
  seq :: nat

record database =
  stored :: table
  txn :: "table option"

datatype stmt = INSERT sale | COMMIT

datatype exec_result = ExecOk | SqliteError | OtherError py_exc

definition insert_row :: "table \<Rightarrow> sale \<Rightarrow> table" where
  "insert_row t s = \<lparr>rows = rows t @ [(Suc (seq t), s)], seq = Suc (seq t)\<rparr>"

text \<open>An \<open>int\<close> parameter is bound as a 64-bit integer; one that does not fit raises
  \<open>OverflowError\<close>, which is not an \<open>sqlite3.Error\<close>.\<close>

definition fits_int64 :: "int \<Rightarrow> bool" where
  "fits_int64 n = (- (2 ^ 63) \<le> n \<and> n < 2 ^ 63)"

text \<open>
  \<open>cursor.executemany\<close>: one \<open>INSERT\<close> per tuple, inside the transaction. Whether the
  engine fails a statement with an \<open>sqlite3.Error\<close> (disk full, database locked) is not
  decided by the program: \<open>fault t st\<close> says that statement \<open>st\<close> fails on table \<open>t\<close>.
\<close>

fun executemany :: "(table \<Rightarrow> stmt \<Rightarrow> bool) \<Rightarrow> table \<Rightarrow> sale list \<Rightarrow> exec_result \<times> table" where
  "executemany fault t [] = (ExecOk, t)"
| "executemany fault t (s # ss) =
     (if \<not> fits_int64 (quantidade s) then (OtherError OverflowError, t)
      else if fault t (INSERT s) then (SqliteError, t)
      else executemany fault (insert_row t s) ss)"

datatype ui_event =
  Progress nat | ShowInfo nat | ShowWarning | ShowError | DestroyProgress | RefreshTable

text \<open>
  \<open>insert_multiple_sales\<close>: the value returned (\<open>Inl e\<close> when \<open>e\<close> leaves the method
  uncaught), the connection afterwards, and the dialogs shown.
\<close>

definition insert_multiple_sales ::
  "(table \<Rightarrow> stmt \<Rightarrow> bool) \<Rightarrow> database \<Rightarrow> sale list \<Rightarrow> (py_exc + bool) \<times> database \<times> ui_event list" where
  "insert_multiple_sales fault db sales_data_list =
     (let view = (case txn db of None \<Rightarrow> stored db | Some t \<Rightarrow> t)
      in case executemany fault view sales_data_list of
           (ExecOk, t) \<Rightarrow>
             if fault t COMMIT then (Inr False, db\<lparr>txn := None\<rparr>, [ShowError])
             else (Inr True, \<lparr>stored = t, txn = None\<rparr>, [])
         | (SqliteError, t) \<Rightarrow> (Inr False, db\<lparr>txn := None\<rparr>, [ShowError])
         | (OtherError e, t) \<Rightarrow> (Inl e, db\<lparr>txn := Some t\<rparr>, []))"

section \<open>The import worker\<close>

record worker_state =
  sales_to_insert :: "sale list"
  console :: "(nat \<times> py_exc) list"
  ui :: "ui_event list"
  uncaught :: "py_exc option"

text \<open>The \<open>except (KeyError, ValueError, TypeError)\<close> clause.\<close>

definition caught :: "py_exc \<Rightarrow> bool" where
  "caught e = (e = KeyError \<or> e = ValueError \<or> e = TypeError)"

text \<open>
  The loop \<open>for index, row in df.iterrows()\<close>. A caught exception prints the warning
  with \<open>index + 2\<close> and continues; any other exception leaves the loop and the worker.
  The progress update is the last statement of the body, after the \<open>try\<close>, so both
  \<open>continue\<close>s pass it by.
\<close>

fun import_rows ::
  "(nat \<Rightarrow> row \<Rightarrow> py_exc + sale option) \<Rightarrow> nat \<Rightarrow> row list \<Rightarrow> worker_state \<Rightarrow> worker_state" where
  "import_rows conv index [] st = st"
| "import_rows conv index (row # df) st =
     (case conv index row of
        Inl e \<Rightarrow>
          if caught e
          then import_rows conv (index + 1) df (st\<lparr>console := console st @ [(index + 2, e)]\<rparr>)
          else st\<lparr>uncaught := Some e\<rparr>
      | Inr None \<Rightarrow> import_rows conv (index + 1) df st
      | Inr (Some s) \<Rightarrow>
          import_rows conv (index + 1) df
            (st\<lparr>sales_to_insert := sales_to_insert st @ [s],
                ui := ui st @ [Progress (index + 1)]\<rparr>))"

definition initial_state :: worker_state where
  "initial_state = \<lparr>sales_to_insert = [], console = [], ui = [], uncaught = None\<rparr>"

text \<open>
  The conversion of the row with index \<open>index\<close> under a mapping; \<open>now index\<close> is the
  text of the clock when that row is converted.
\<close>

definition row_conv ::
  "(pyfloat \<Rightarrow> string) \<Rightarrow> (nat \<Rightarrow> string) \<Rightarrow> mapping \<Rightarrow> nat \<Rightarrow> row \<Rightarrow> py_exc + sale option" where
  "row_conv float_repr now mapping index row =
     convert_row float_repr (now index) (system_to_sheet mapping) row"

text \<open>The loop of the worker on the data frame, under a mapping.\<close>

definition run_rows ::
  "(pyfloat \<Rightarrow> string) \<Rightarrow> (nat \<Rightarrow> string) \<Rightarrow> row list \<Rightarrow> mapping \<Rightarrow> worker_state" where
  "run_rows float_repr now df mapping =
     import_rows (row_conv float_repr now mapping) 0 df initial_state"

text \<open>\<open>_worker_import\<close>: the state of the worker and the connection when the thread ends.\<close>

definition worker_import ::
  "(pyfloat \<Rightarrow> string) \<Rightarrow> (nat \<Rightarrow> string) \<Rightarrow> (table \<Rightarrow> stmt \<Rightarrow> bool) \<Rightarrow> database \<Rightarrow>
   row list \<Rightarrow> mapping \<Rightarrow> worker_state \<times> database" where
  "worker_import float_repr now fault db df mapping =
     (let st = run_rows float_repr now df mapping
      in if uncaught st \<noteq> None then (st, db)
         else if sales_to_insert st \<noteq> [] then
           (case insert_multiple_sales fault db (sales_to_insert st) of
              (Inr success, db', shown) \<Rightarrow>
                (st\<lparr>ui := ui st @ shown
                       @ (if success then [ShowInfo (length (sales_to_insert st))] else [])
                       @ [DestroyProgress, RefreshTable]\<rparr>, db')
            | (Inl e, db', shown) \<Rightarrow> (st\<lparr>ui := ui st @ shown, uncaught := Some e\<rparr>, db'))
         else (st\<lparr>ui := ui st @ [ShowWarning, DestroyProgress, RefreshTable]\<rparr>, db))"

section \<open>The mapping window\<close>

text \<open>
  \<open>ImportMappingWindow.__init__\<close>: one combo box per column, set to the field of the
  initial mapping when the column is one of its keys, and to \<open>guess_mapping\<close> of the
  column otherwise.
\<close>

definition window_init :: "string list \<Rightarrow> mapping \<Rightarrow> mapping" where
  "window_init columns initial_mapping =
     fold (\<lambda>col column_mappings.
             dict_set column_mappings col
               (case map_of initial_mapping col of Some f \<Rightarrow> f | None \<Rightarrow> guess_mapping col))
          columns []"

text \<open>\<open>ImportMappingWindow.confirm\<close>: \<open>None\<close> when the error dialog is shown and the
  window stays, otherwise the mapping handed to the import.\<close>

definition confirm :: "mapping \<Rightarrow> mapping option" where
  "confirm column_mappings =
     (let final_mapping = filter (\<lambda>(col, sel). sel \<noteq> IGNORAR) column_mappings;
          mapped_fields = set (map snd final_mapping)
      in if \<not> required_fields \<subseteq> mapped_fields then None else Some final_mapping)"

text \<open>
  \<open>iniciar_importacao\<close>, from the header of the sheet to the mapping the import runs
  under. \<open>proceed\<close> is the answer to the question asked when no required field is
  missing; \<open>edit\<close> is what the user does to the boxes of the window before pressing
  Confirm (the identity when nothing is touched). \<open>None\<close>: this press starts no import.
\<close>

definition iniciar_importacao :: "string list \<Rightarrow> bool \<Rightarrow> (mapping \<Rightarrow> mapping) \<Rightarrow> mapping option" where
  "iniciar_importacao columns proceed edit =
     (let (auto_mapping, missing_fields) = tentar_mapeamento_automatico columns
      in if missing_fields = {} \<and> proceed then Some auto_mapping
         else confirm (edit (window_init columns auto_mapping)))"

section \<open>Auxiliary notions for the statements\<close>

text \<open>
  For each field of \<open>flds\<close>, in that order, the first column of the header that
  \<open>guess_mapping\<close> classifies as the field, where there is one.
\<close>

definition first_columns :: "string list \<Rightarrow> string list \<Rightarrow> mapping" where
  "first_columns flds cols =
     List.map_filter (\<lambda>f. map_option (\<lambda>c. (c, f)) (find (\<lambda>c. guess_mapping c = f) cols)) flds"

text \<open>
  What a loop over the rows \<open>df\<close>, the first of index \<open>i\<close>, is expected to leave behind
  when no row ends it: the tuples of the accepted rows, the warnings of the rows whose
  conversion raised (with the line number \<open>index + 2\<close>), the progress updates, and the
  rows that were not accepted.
\<close>

definition accepted :: "(nat \<Rightarrow> row \<Rightarrow> py_exc + sale option) \<Rightarrow> nat \<Rightarrow> row list \<Rightarrow> sale list" where
  "accepted conv i df =
     concat (map (\<lambda>(j, r). case conv j r of Inr (Some s) \<Rightarrow> [s] | _ \<Rightarrow> []) (enumerate i df))"

definition warnings ::
  "(nat \<Rightarrow> row \<Rightarrow> py_exc + sale option) \<Rightarrow> nat \<Rightarrow> row list \<Rightarrow> (nat \<times> py_exc) list" where
  "warnings conv i df =
     concat (map (\<lambda>(j, r). case conv j r of Inl e \<Rightarrow> [(j + 2, e)] | Inr _ \<Rightarrow> []) (enumerate i df))"

definition progress_events ::
  "(nat \<Rightarrow> row \<Rightarrow> py_exc + sale option) \<Rightarrow> nat \<Rightarrow> row list \<Rightarrow> ui_event list" where
  "progress_events conv i df =
     concat (map (\<lambda>(j, r). case conv j r of Inr (Some s) \<Rightarrow> [Progress (j + 1)] | _ \<Rightarrow> [])
               (enumerate i df))"


text \<open>
  \<open>extends t' t\<close>: the table \<open>t'\<close> is the table \<open>t\<close> followed by further rows. A
  connection is in order when it has no open transaction (which is how every method of
  \<open>DatabaseManager\<close> that returns leaves it, each ending in \<open>commit\<close> or \<open>rollback\<close>)
  or the open transaction has only added rows to the committed table.
\<close>

definition extends :: "table \<Rightarrow> table \<Rightarrow> bool" where
  "extends t' t = (take (length (rows t)) (rows t') = rows t)"

definition appends_only :: "database \<Rightarrow> bool" where
  "appends_only db = (case txn db of None \<Rightarrow> True | Some t \<Rightarrow> extends t (stored db))"


section \<open>Example data\<close>

text \<open>A complete mapping, a valid row under it, and the tuple the row converts to.\<close>

definition ex_mapping :: mapping where
  "ex_mapping = [(''Cliente'', F_CLIENTE), (''Produto'', F_PRODUTO), (''Qtd'', F_QUANTIDADE),
                 (''Valor'', F_VALOR)]"

definition ex_row :: row where
  "ex_row = [''Cliente'' \<mapsto> CStr ''Ana'', ''Produto'' \<mapsto> CStr ''Cesto'',
             ''Qtd'' \<mapsto> CStr ''3'', ''Valor'' \<mapsto> CStr ''10,50'']"

definition ex_sale :: "string \<Rightarrow> sale" where
  "ex_sale t = \<lparr>nome_cliente = ''Ana'', nome_produto = ''Cesto'', quantidade = 3,
                preco = Finite (21 / 2), tipo_pagamento = NAO_INFORMADO,
                preco_final = Finite (63 / 2), nome_vendedor = IMPORTADO, data_hora = t\<rparr>"

text \<open>A stand-in for the text of floats (no example has a float cell), a clock, an
  engine that never fails, one that fails the second \<open>INSERT\<close> of a batch, and a store
  with one sale in it.\<close>

definition ex_repr :: "pyfloat \<Rightarrow> string" where
  "ex_repr f = ''0.0''"

definition ex_now :: "nat \<Rightarrow> string" where
  "ex_now i = ''03/11/2026 10:00:00''"

definition no_fault :: "table \<Rightarrow> stmt \<Rightarrow> bool" where
  "no_fault t st = False"

definition ex_db :: database where
  "ex_db = \<lparr>stored = \<lparr>rows = [(1, ex_sale ''01/10/2025 09:00:00'')], seq = 1\<rparr>, txn = None\<rparr>"

definition second_insert_fails :: "table \<Rightarrow> stmt \<Rightarrow> bool" where
  "second_insert_fails t st = (st \<noteq> COMMIT \<and> seq t = 2)"

text \<open>The valid row with the quantity \<open>2^63\<close>, one more than a 64-bit integer holds,
  and the tuple it converts to.\<close>

definition ex_big_row :: row where
  "ex_big_row = ex_row(''Qtd'' \<mapsto> CStr ''9223372036854775808'')"

definition ex_big_sale :: "string \<Rightarrow> sale" where
  "ex_big_sale t = (ex_sale t)\<lparr>quantidade := 9223372036854775808,
                               preco_final := Finite 96845406386975145984\<rparr>"

section \<open>The column mapper: properties\<close>

lemmas str_eval = lower_def lower_char_def upper_letters_def lower_letters_def strip_def
  isspace_def whitespace_def any_in_def

lemma guess_Cliente: "guess_mapping ''Cliente'' = F_CLIENTE"
  by (simp add: guess_mapping_def str_eval)

lemma guess_Nome: "guess_mapping ''Nome'' = F_CLIENTE"
  by (simp add: guess_mapping_def str_eval)

lemma dict_set_fresh: "k \<notin> fst ` set d \<Longrightarrow> dict_set d k v = d @ [(k, v)]"
  by (induction d) auto

lemma scan_columns_find:
  assumes "\<And>c f'. (c, f') \<in> set m \<Longrightarrow> guess_mapping c = f' \<and> f' \<noteq> f"
  shows "scan_columns f m cols = find (\<lambda>c. guess_mapping c = f) cols"
proof (induction cols)
  case Nil
  show ?case by simp
next
  case (Cons col cols)
  have "col \<notin> set (map fst m)" if "guess_mapping col = f"
  proof
    assume "col \<in> set (map fst m)"
    then obtain f' where "(col, f') \<in> set m" by auto
    with assms that show False by blast
  qed
  with Cons show ?case by auto
qed

lemma find_guess: "find (\<lambda>c. guess_mapping c = f) cols = Some c \<Longrightarrow> guess_mapping c = f \<and> c \<in> set cols"
  by (induction cols) (auto split: if_splits)

lemma map_fields_eq:
  assumes "distinct fs" "\<And>c f'. (c, f') \<in> set m \<Longrightarrow> guess_mapping c = f' \<and> f' \<notin> set fs"
  shows "map_fields fs cols (m, F) =
      (m @ first_columns fs cols,
       F \<union> {f \<in> set fs. f \<in> required_fields \<and> find (\<lambda>c. guess_mapping c = f) cols \<noteq> None})"
  using assms
proof (induction fs arbitrary: m F)
  case Nil
  then show ?case by (simp add: first_columns_def map_filter_simps)
next
  case (Cons f fs)
  have scan: "scan_columns f m cols = find (\<lambda>c. guess_mapping c = f) cols"
    by (rule scan_columns_find) (use Cons.prems(2) in auto)
  show ?case
  proof (cases "find (\<lambda>c. guess_mapping c = f) cols")
    case None
    have "map_fields (f # fs) cols (m, F) = map_fields fs cols (m, F)"
      by (simp add: scan None)
    also have "\<dots> = (m @ first_columns fs cols,
       F \<union> {f \<in> set fs. f \<in> required_fields \<and> find (\<lambda>c. guess_mapping c = f) cols \<noteq> None})"
      by (rule Cons.IH) (use Cons.prems in auto)
    finally show ?thesis using None by (auto simp: first_columns_def map_filter_simps)
  next
    case (Some col)
    have g: "guess_mapping col = f" using find_guess[OF Some] by simp
    have fresh: "col \<notin> fst ` set m"
    proof
      assume "col \<in> fst ` set m"
      then obtain f' where "(col, f') \<in> set m" by auto
      with Cons.prems(2) g show False by fastforce
    qed
    let ?m' = "m @ [(col, f)]"
    let ?F' = "if f \<in> required_fields then insert f F else F"
    have "map_fields (f # fs) cols (m, F) = map_fields fs cols (?m', ?F')"
      by (simp add: scan Some dict_set_fresh[OF fresh])
    also have "\<dots> = (?m' @ first_columns fs cols,
       ?F' \<union> {f \<in> set fs. f \<in> required_fields \<and> find (\<lambda>c. guess_mapping c = f) cols \<noteq> None})"
    proof (rule Cons.IH)
      show "distinct fs" using Cons.prems(1) by simp
      fix c f' assume "(c, f') \<in> set ?m'"
      then show "guess_mapping c = f' \<and> f' \<notin> set fs"
        using Cons.prems g by auto
    qed
    finally show ?thesis using Some by (auto simp: first_columns_def map_filter_simps)
  qed
qed

lemma tentar_eq:
  "tentar_mapeamento_automatico cols =
     (first_columns system_fields cols,
      {f \<in> required_fields. find (\<lambda>c. guess_mapping c = f) cols = None})"
proof -
  have d: "distinct system_fields" by (simp add: system_fields_def)
  have "map_fields system_fields cols ([], {}) =
      ([] @ first_columns system_fields cols,
       {} \<union> {f \<in> set system_fields. f \<in> required_fields \<and> find (\<lambda>c. guess_mapping c = f) cols \<noteq> None})"
    by (rule map_fields_eq[OF d]) simp
  moreover have "required_fields \<subseteq> set system_fields"
    by (simp add: required_fields_def system_fields_def)
  ultimately show ?thesis
    by (auto simp: tentar_mapeamento_automatico_def)
qed


lemma in_first_columns:
  "(c, f) \<in> set (first_columns fs cols) \<longleftrightarrow>
     f \<in> set fs \<and> find (\<lambda>c. guess_mapping c = f) cols = Some c"
  by (induction fs) (auto simp: first_columns_def split: option.splits)

lemma filter_first_columns:
  assumes "distinct fs" "f \<in> set fs" "find (\<lambda>c. guess_mapping c = f) cols = Some c"
  shows "filter (\<lambda>p. snd p = f) (first_columns fs cols) = [(c, f)]"
  using assms
proof (induction fs)
  case Nil
  then show ?case by simp
next
  case (Cons g fs)
  have none: "filter (\<lambda>p. snd p = f) (first_columns fs cols) = []" if "f \<notin> set fs"
    using that by (auto simp: filter_empty_conv in_first_columns)
  show ?case
  proof (cases "g = f")
    case True
    then have "f \<notin> set fs" using Cons.prems(1) by simp
    from none[OF this] True Cons.prems(3) show ?thesis
      by (simp add: first_columns_def map_filter_simps)
  next
    case False
    then have "f \<in> set fs" using Cons.prems(2) by simp
    then have "filter (\<lambda>p. snd p = f) (first_columns fs cols) = [(c, f)]"
      using Cons.IH Cons.prems by simp
    then show ?thesis using False
      by (auto simp: first_columns_def map_filter_simps split: option.splits)
  qed
qed

lemma find_first:
  "x \<in> set xs \<Longrightarrow> P x \<Longrightarrow> \<forall>y \<in> set (takeWhile (\<lambda>y. y \<noteq> x) xs). \<not> P y \<Longrightarrow> find P xs = Some x"
proof (induction xs)
  case Nil
  then show ?case by simp
next
  case (Cons a xs)
  show ?case
  proof (cases "a = x")
    case True
    with Cons.prems show ?thesis by simp
  next
    case False
    with Cons.prems have "\<not> P a" "x \<in> set xs" "\<forall>y \<in> set (takeWhile (\<lambda>y. y \<noteq> x) xs). \<not> P y"
      by auto
    with Cons.IH Cons.prems(2) show ?thesis by simp
  qed
qed

text \<open>
  Claim C9, amended. \<open>guess_mapping\<close> classifies a column named \<open>Cliente\<close> as
  \<open>Nome do Cliente\<close>. For every header that holds a column \<open>Cliente\<close>, the automatic
  mapping gives \<open>Nome do Cliente\<close> exactly one column, the first column of the header
  that \<open>guess_mapping\<close> classifies as \<open>Nome do Cliente\<close>; the column \<open>Cliente\<close> is
  mapped to no other field, \<open>Nome do Cliente\<close> is not reported missing, and \<open>Cliente\<close>
  itself is the mapped column when no column before it is classified as
  \<open>Nome do Cliente\<close>.
\<close>

theorem Cliente_column_first_match:
  assumes "''Cliente'' \<in> set cols"
  shows "guess_mapping ''Cliente'' = F_CLIENTE \<and>
    (\<exists>c. find (\<lambda>c. guess_mapping c = F_CLIENTE) cols = Some c \<and>
         filter (\<lambda>p. snd p = F_CLIENTE) (fst (tentar_mapeamento_automatico cols)) = [(c, F_CLIENTE)]) \<and>
    (\<forall>f. (''Cliente'', f) \<in> set (fst (tentar_mapeamento_automatico cols)) \<longrightarrow> f = F_CLIENTE) \<and>
    F_CLIENTE \<notin> snd (tentar_mapeamento_automatico cols) \<and>
    ((\<forall>c \<in> set (takeWhile (\<lambda>c. c \<noteq> ''Cliente'') cols). guess_mapping c \<noteq> F_CLIENTE) \<longrightarrow>
       (''Cliente'', F_CLIENTE) \<in> set (fst (tentar_mapeamento_automatico cols)))"
proof -
  let ?P = "\<lambda>c. guess_mapping c = F_CLIENTE"
  have g: "guess_mapping ''Cliente'' = F_CLIENTE" by (rule guess_Cliente)
  have "find ?P cols \<noteq> None" using assms g by (auto simp: find_None_iff)
  then obtain c where c: "find ?P cols = Some c" by auto
  have mem: "F_CLIENTE \<in> set system_fields" and d: "distinct system_fields"
    by (simp_all add: system_fields_def)
  have 1: "filter (\<lambda>p. snd p = F_CLIENTE) (fst (tentar_mapeamento_automatico cols)) = [(c, F_CLIENTE)]"
    using filter_first_columns[OF d mem c] by (simp add: tentar_eq)
  have 2: "f = F_CLIENTE" if "(''Cliente'', f) \<in> set (fst (tentar_mapeamento_automatico cols))" for f
  proof -
    from that have "find (\<lambda>c. guess_mapping c = f) cols = Some ''Cliente''"
      by (simp add: tentar_eq in_first_columns)
    from find_guess[OF this] g show ?thesis by simp
  qed
  have 3: "F_CLIENTE \<notin> snd (tentar_mapeamento_automatico cols)"
    using c by (simp add: tentar_eq)
  have 4: "(''Cliente'', F_CLIENTE) \<in> set (fst (tentar_mapeamento_automatico cols))"
    if "\<forall>c \<in> set (takeWhile (\<lambda>c. c \<noteq> ''Cliente'') cols). guess_mapping c \<noteq> F_CLIENTE"
    using find_first[of "''Cliente''" cols ?P, OF assms g] that mem
    by (simp add: tentar_eq in_first_columns)
  from g c 1 2 3 4 show ?thesis by blast
qed

lemma tentar_Nome_Cliente:
  "tentar_mapeamento_automatico [''Nome'', ''Cliente''] =
     ([(''Nome'', F_CLIENTE)], {F_PRODUTO, F_QUANTIDADE, F_VALOR})"
  by (auto simp: tentar_eq first_columns_def system_fields_def required_fields_def
      map_filter_simps guess_Nome guess_Cliente)

text \<open>The header \<open>Nome, Cliente\<close>: the column \<open>Nome\<close> comes first and takes the field.\<close>

theorem Cliente_column_first_match_witness:
  "''Cliente'' \<in> set [''Nome'', ''Cliente''] \<and>
   guess_mapping ''Cliente'' = F_CLIENTE \<and>
   find (\<lambda>c. guess_mapping c = F_CLIENTE) [''Nome'', ''Cliente''] = Some ''Nome'' \<and>
   filter (\<lambda>p. snd p = F_CLIENTE) (fst (tentar_mapeamento_automatico [''Nome'', ''Cliente''])) =
     [(''Nome'', F_CLIENTE)] \<and>
   F_CLIENTE \<notin> snd (tentar_mapeamento_automatico [''Nome'', ''Cliente''])"
  using Cliente_column_first_match[of "[''Nome'', ''Cliente'']"]
  by (simp add: guess_Nome)

text \<open>
  Claim C9 as stated fails on the header \<open>Nome, Cliente\<close>: the automatic mapping
  leaves the column \<open>Cliente\<close> unmapped.
\<close>

theorem Cliente_column_unmapped_counterexample:
  "''Cliente'' \<in> set [''Nome'', ''Cliente''] \<and>
   map_of (fst (tentar_mapeamento_automatico [''Nome'', ''Cliente''])) ''Cliente'' = None \<and>
   map_of (fst (tentar_mapeamento_automatico [''Nome'', ''Cliente''])) ''Nome'' = Some F_CLIENTE"
  by (simp add: tentar_Nome_Cliente)


text \<open>The automatic mapping gives every field one column at most.\<close>

lemma snd_first_columns:
  "map snd (first_columns fs cols) = filter (\<lambda>f. find (\<lambda>c. guess_mapping c = f) cols \<noteq> None) fs"
  by (induction fs) (auto simp: first_columns_def split: option.splits)

lemma auto_mapping_one_column_per_field:
  "distinct (map snd (fst (tentar_mapeamento_automatico cols)))"
  by (simp add: tentar_eq snd_first_columns system_fields_def)

lemma guess_Produto: "guess_mapping ''Produto'' = F_PRODUTO"
  by (simp add: guess_mapping_def str_eval)

lemma guess_Qtd: "guess_mapping ''Qtd'' = F_QUANTIDADE"
  by (simp add: guess_mapping_def str_eval)

lemma guess_Quantidade: "guess_mapping ''Quantidade'' = F_QUANTIDADE"
  by (simp add: guess_mapping_def str_eval)

lemma guess_Valor: "guess_mapping ''Valor'' = F_VALOR"
  by (simp add: guess_mapping_def str_eval)

lemmas guess_eval = guess_Cliente guess_Nome guess_Produto guess_Qtd guess_Quantidade guess_Valor

lemma tentar_two_quantity_columns:
  "tentar_mapeamento_automatico [''Cliente'', ''Produto'', ''Qtd'', ''Quantidade'', ''Valor''] =
     ([(''Cliente'', F_CLIENTE), (''Produto'', F_PRODUTO), (''Qtd'', F_QUANTIDADE),
       (''Valor'', F_VALOR)], {})"
  by (auto simp: tentar_eq first_columns_def system_fields_def required_fields_def guess_eval)

text \<open>When the user lets the automatic mapping proceed, the import runs under it, with
  one column per field, the first in header order that is classified as the field.\<close>

lemma confirmed_auto_mapping_is_first_match:
  assumes "iniciar_importacao columns True edit = Some mp"
    and "snd (tentar_mapeamento_automatico columns) = {}"
  shows "mp = first_columns system_fields columns \<and> distinct (map snd mp)"
  using assms auto_mapping_one_column_per_field[of columns]
  by (simp add: iniciar_importacao_def tentar_eq)

text \<open>
  Claim C4 on the header \<open>Cliente, Produto, Qtd, Quantidade, Valor\<close>. The automatic
  mapping misses no required field and maps \<open>Qtd\<close> only. When the user declines it,
  the window is opened on it, sets the box of \<open>Quantidade\<close> to its guess, and
  \<open>confirm\<close> accepts the boxes as they stand: the import then runs under a mapping
  with two columns on the required field \<open>Quantidade\<close>, and reads the quantity from the
  last of them, \<open>Quantidade\<close>, not the first.
\<close>

theorem manual_review_maps_two_columns_to_Quantidade:
  "snd (tentar_mapeamento_automatico [''Cliente'', ''Produto'', ''Qtd'', ''Quantidade'', ''Valor'']) = {} \<and>
   iniciar_importacao [''Cliente'', ''Produto'', ''Qtd'', ''Quantidade'', ''Valor''] False id
     = Some [(''Cliente'', F_CLIENTE), (''Produto'', F_PRODUTO), (''Qtd'', F_QUANTIDADE),
             (''Quantidade'', F_QUANTIDADE), (''Valor'', F_VALOR)] \<and>
   system_to_sheet [(''Cliente'', F_CLIENTE), (''Produto'', F_PRODUTO), (''Qtd'', F_QUANTIDADE),
                    (''Quantidade'', F_QUANTIDADE), (''Valor'', F_VALOR)] F_QUANTIDADE
     = Some ''Quantidade''"
  by (simp add: iniciar_importacao_def tentar_two_quantity_columns window_init_def confirm_def
      guess_eval required_fields_def system_to_sheet_def)

section \<open>Evaluation of the number model\<close>

lemma bitlen_One: "bitlen 1 = 1" by (subst compute_bitlen) simp
lemma bitlen_Bit0: "bitlen (numeral (num.Bit0 n)) = bitlen (numeral n) + 1"
  by (subst compute_bitlen) simp
lemma bitlen_Bit1: "bitlen (numeral (num.Bit1 n)) = bitlen (numeral n) + 1"
  by (subst compute_bitlen) simp
lemma floor_rat_numeral_div: "\<lfloor>(numeral a :: rat) / numeral b\<rfloor> = numeral a div numeral b"
  using floor_divide_of_int_eq[of "numeral a" "numeral b", where ?'a = rat] by simp
lemma ceiling_rat_numeral_div: "\<lceil>(numeral a :: rat) / numeral b\<rceil> = - ((- numeral a) div numeral b)"
  using floor_divide_of_int_eq[of "- numeral a" "numeral b", where ?'a = rat] by (simp add: ceiling_def)
lemmas float_eval = round_b64_def ilog2_def pow2_def round_half_even_def bitlen_One bitlen_Bit0 bitlen_Bit1
  floor_rat_numeral_div ceiling_rat_numeral_div Let_def
lemmas parse_eval = py_int_str_def py_float_str_def num_strip_def num_space_def split_sign_def
  digits_val_def digit_of_def isdigit_def decimal_val_def signed_int_def pow10_def str_eval
lemmas conv_eval = convert_row_def parse_price_def bind_exc_def getitem_def system_to_sheet_def py_str_def py_int_def
  get_optional_def float_lt_zero_def int_mul_float_def int_to_float_def float_mul_def float_to_int_def

section \<open>The loop of the worker: properties\<close>

lemma import_rows_eq:
  "\<forall>(j, r) \<in> set (enumerate i df). \<forall>e. conv j r = Inl e \<longrightarrow> caught e \<Longrightarrow>
   import_rows conv i df st =
     st\<lparr>sales_to_insert := sales_to_insert st @ accepted conv i df,
        console := console st @ warnings conv i df,
        ui := ui st @ progress_events conv i df\<rparr>"
proof (induction df arbitrary: i st)
  case Nil
  show ?case by (simp add: accepted_def warnings_def progress_events_def)
next
  case (Cons row df)
  have rest: "\<forall>(j, r) \<in> set (enumerate (Suc i) df). \<forall>e. conv j r = Inl e \<longrightarrow> caught e"
    using Cons.prems by simp
  note IH = Cons.IH[OF rest]
  show ?case
  proof (cases "conv i row")
    case (Inl e)
    then have "caught e" using Cons.prems by simp
    with Inl show ?thesis
      by (simp add: IH accepted_def warnings_def progress_events_def)
  next
    case (Inr so)
    then show ?thesis
      by (cases so) (simp_all add: IH accepted_def warnings_def progress_events_def)
  qed
qed

lemma import_rows_uncaught:
  "\<forall>(j, r) \<in> set (enumerate i df). \<forall>e. conv j r = Inl e \<longrightarrow> caught e \<Longrightarrow>
   uncaught (import_rows conv i df st) = uncaught st"
  by (simp add: import_rows_eq)




lemma import_rows_progress_per_sale:
  "\<exists>ss ps. sales_to_insert (import_rows conv i df st) = sales_to_insert st @ ss \<and>
           ui (import_rows conv i df st) = ui st @ ps \<and> length ps = length ss"
proof (induction df arbitrary: i st)
  case Nil
  show ?case by simp
next
  case (Cons row df)
  show ?case
  proof (cases "conv i row")
    case (Inl e)
    show ?thesis
    proof (cases "caught e")
      case True
      from Cons.IH[of "Suc i" "st\<lparr>console := console st @ [(i + 2, e)]\<rparr>"] Inl True
      show ?thesis by simp
    next
      case False
      with Inl show ?thesis by simp
    qed
  next
    case (Inr so)
    show ?thesis
    proof (cases so)
      case None
      with Inr Cons.IH[of "Suc i" st] show ?thesis by simp
    next
      case (Some s)
      let ?st = "st\<lparr>sales_to_insert := sales_to_insert st @ [s], ui := ui st @ [Progress (i + 1)]\<rparr>"
      from Cons.IH[of "Suc i" ?st]
      obtain ss ps where
        "sales_to_insert (import_rows conv (Suc i) df ?st) = sales_to_insert st @ [s] @ ss"
        "ui (import_rows conv (Suc i) df ?st) = ui st @ [Progress (i + 1)] @ ps"
        "length ps = length ss"
        by auto
      then have "sales_to_insert (import_rows conv i (row # df) st) = sales_to_insert st @ (s # ss) \<and>
           ui (import_rows conv i (row # df) st) = ui st @ (Progress (i + 1) # ps) \<and>
           length (Progress (i + 1) # ps) = length (s # ss)"
        using Inr Some by simp
      then show ?thesis by blast
    qed
  qed
qed

lemma no_sales_no_progress:
  "sales_to_insert (run_rows fr now df m) = [] \<Longrightarrow> ui (run_rows fr now df m) = []"
  using import_rows_progress_per_sale[of "row_conv fr now m" 0 df initial_state]
  by (auto simp: run_rows_def initial_state_def)


text \<open>The progress values that are reported increase, and none exceeds the number of rows.\<close>

lemma import_rows_progress_increases:
  "\<exists>ps. ui (import_rows conv i df st) = ui st @ map Progress ps \<and> sorted_wrt (<) ps \<and>
        (\<forall>p \<in> set ps. i < p \<and> p \<le> i + length df)"
proof (induction df arbitrary: i st)
  case Nil
  show ?case by simp
next
  case (Cons row df)
  show ?case
  proof (cases "conv i row")
    case (Inl e)
    show ?thesis
    proof (cases "caught e")
      case True
      from Cons.IH[of "Suc i" "st\<lparr>console := console st @ [(i + 2, e)]\<rparr>"]
      obtain ps where "ui (import_rows conv (Suc i) df (st\<lparr>console := console st @ [(i + 2, e)]\<rparr>))
          = ui st @ map Progress ps" "sorted_wrt (<) ps" "\<forall>p \<in> set ps. Suc i < p \<and> p \<le> Suc i + length df"
        by auto
      with Inl True show ?thesis by (intro exI[of _ ps]) auto
    next
      case False
      with Inl show ?thesis by (intro exI[of _ "[]"]) simp
    qed
  next
    case (Inr so)
    show ?thesis
    proof (cases so)
      case None
      from Cons.IH[of "Suc i" st]
      obtain ps where "ui (import_rows conv (Suc i) df st) = ui st @ map Progress ps"
        "sorted_wrt (<) ps" "\<forall>p \<in> set ps. Suc i < p \<and> p \<le> Suc i + length df"
        by auto
      with Inr None show ?thesis by (intro exI[of _ ps]) auto
    next
      case (Some s)
      let ?st = "st\<lparr>sales_to_insert := sales_to_insert st @ [s], ui := ui st @ [Progress (i + 1)]\<rparr>"
      from Cons.IH[of "Suc i" ?st]
      obtain ps where "ui (import_rows conv (Suc i) df ?st) = ui st @ [Progress (i + 1)] @ map Progress ps"
        "sorted_wrt (<) ps" "\<forall>p \<in> set ps. Suc i < p \<and> p \<le> Suc i + length df"
        by auto
      with Inr Some show ?thesis by (intro exI[of _ "Suc i # ps"]) auto
    qed
  qed
qed

lemma progress_values_increase:
  "\<exists>ps. ui (run_rows fr now df m) = map Progress ps \<and> sorted_wrt (<) ps \<and>
        (\<forall>p \<in> set ps. 0 < p \<and> p \<le> length df)"
  using import_rows_progress_increases[of "row_conv fr now m" 0 df initial_state]
  by (simp add: run_rows_def initial_state_def)


lemmas row_eval = row_conv_def ex_mapping_def ex_row_def ex_sale_def conv_eval parse_eval float_eval

lemma conv_ex_row: "row_conv fr now ex_mapping j ex_row = Inr (Some (ex_sale (now j)))"
  by (simp add: row_eval)

lemma conv_qtd_abc: "row_conv fr now ex_mapping j (ex_row(''Qtd'' \<mapsto> CStr ''abc'')) = Inl ValueError"
  by (simp add: row_eval)

lemma conv_qtd_zero: "row_conv fr now ex_mapping j (ex_row(''Qtd'' \<mapsto> CStr ''0'')) = Inr None"
  by (simp add: row_eval)

lemma conv_valor_neg: "row_conv fr now ex_mapping j (ex_row(''Valor'' \<mapsto> CStr ''-5'')) = Inr None"
  by (simp add: row_eval)

lemma conv_valor_text: "row_conv fr now ex_mapping j (ex_row(''Valor'' \<mapsto> CStr ''R$ 10'')) = Inl ValueError"
  by (simp add: row_eval)

lemma conv_blank_cliente:
  "row_conv fr now ex_mapping j (ex_row(''Cliente'' \<mapsto> CStr ''   '')) =
     Inr (Some ((ex_sale (now j))\<lparr>nome_cliente := ''   ''\<rparr>))"
  by (simp add: row_eval)

lemmas ex_conv = conv_ex_row conv_qtd_abc conv_qtd_zero conv_valor_neg conv_valor_text conv_blank_cliente




text \<open>
  Claim C2 on three rows, the second failing the validity test and the third raising
  \<open>ValueError\<close>: three rows are processed and one progress update is made, of value 1;
  and one row that is skipped gives no progress update at all.
\<close>

theorem skipped_rows_report_no_progress:
  "length [ex_row, ex_row(''Qtd'' \<mapsto> CStr ''0''), ex_row(''Qtd'' \<mapsto> CStr ''abc'')] = 3 \<and>
   ui (fst (worker_import ex_repr ex_now no_fault ex_db
        [ex_row, ex_row(''Qtd'' \<mapsto> CStr ''0''), ex_row(''Qtd'' \<mapsto> CStr ''abc'')] ex_mapping))
     = [Progress 1, ShowInfo 1, DestroyProgress, RefreshTable] \<and>
   ui (fst (worker_import ex_repr ex_now no_fault ex_db [ex_row(''Qtd'' \<mapsto> CStr ''0'')] ex_mapping))
     = [ShowWarning, DestroyProgress, RefreshTable]"
  by (simp add: worker_import_def run_rows_def initial_state_def ex_conv caught_def
      insert_multiple_sales_def ex_db_def no_fault_def fits_int64_def ex_sale_def insert_row_def)


section \<open>Row conversion: properties\<close>

lemma fold_field_map:
  "fold (\<lambda>(k, v) d. d(v \<mapsto> k)) m d = d ++ map_of (rev (map (\<lambda>(k, v). (v, k)) m))"
proof (induction m arbitrary: d)
  case Nil
  show ?case by simp
next
  case (Cons p m)
  obtain k v where p: "p = (k, v)" by (cases p)
  let ?M = "map_of (rev (map (\<lambda>(k, v). (v, k)) m))"
  have "fold (\<lambda>(k, v) d. d(v \<mapsto> k)) (p # m) d = fold (\<lambda>(k, v) d. d(v \<mapsto> k)) m (d(v \<mapsto> k))"
    unfolding p by simp
  also have "\<dots> = d(v \<mapsto> k) ++ ?M" by (rule Cons.IH)
  also have "d(v \<mapsto> k) = d ++ [v \<mapsto> k]" by simp
  also have "(d ++ [v \<mapsto> k]) ++ ?M = d ++ ([v \<mapsto> k] ++ ?M)" by (rule map_add_assoc[symmetric])
  also have "[v \<mapsto> k] ++ ?M = map_of (rev (map (\<lambda>(k, v). (v, k)) (p # m)))"
    unfolding p by (simp only: list.map rev.simps map_of_append prod.case map_of.simps fst_conv snd_conv)
  finally show ?case .
qed

lemma system_to_sheet_eq:
  "system_to_sheet m = map_of (rev (map (\<lambda>(k, v). (v, k)) m))"
  by (simp add: system_to_sheet_def fold_field_map)

lemma system_to_sheet_None: "system_to_sheet m f = None \<longleftrightarrow> f \<notin> snd ` set m"
  by (force simp: system_to_sheet_eq map_of_eq_None_iff)

lemma convert_row_Some:
  assumes "convert_row fr t s2s row = Inr (Some s)"
  obtains ccol pcol qcol vcol c p q v where
    "s2s F_CLIENTE = Some ccol" "row ccol = Some c"
    "s2s F_PRODUTO = Some pcol" "row pcol = Some p"
    "s2s F_QUANTIDADE = Some qcol" "row qcol = Some q" "py_int q = Inr (quantidade s)"
    "s2s F_VALOR = Some vcol" "row vcol = Some v" "parse_price (py_str fr v) = Inr (preco s)"
    "nome_cliente s = py_str fr c" "nome_produto s = py_str fr p"
    "py_str fr c \<noteq> []" "py_str fr p \<noteq> []" "0 < quantidade s" "\<not> float_lt_zero (preco s)"
    "int_mul_float (quantidade s) (preco s) = Inr (preco_final s)"
    "tipo_pagamento s = get_optional fr s2s row F_PAGAMENTO NAO_INFORMADO"
    "nome_vendedor s = get_optional fr s2s row F_VENDEDOR IMPORTADO"
    "data_hora s = t"
  using assms
  unfolding convert_row_def bind_exc_def getitem_def Let_def
  by (auto split: option.splits sum.splits if_splits)


text \<open>
  Claim C7, amended. For every row converted during Execute, Payment Type is
  \<open>Nao Informado\<close> (with a tilde) and Seller Name is \<open>Importado\<close> whenever the field is unmapped,
  or the row has no cell under the column the field is mapped to; when the row has a
  cell there, the field is the text of that cell as it is, the empty text included.
\<close>

theorem optional_fields_default_when_unmapped:
  assumes "row_conv fr now m j row = Inr (Some s)"
  shows "(F_PAGAMENTO \<notin> snd ` set m \<longrightarrow> tipo_pagamento s = NAO_INFORMADO) \<and>
         (F_VENDEDOR \<notin> snd ` set m \<longrightarrow> nome_vendedor s = IMPORTADO) \<and>
         (\<forall>col. system_to_sheet m F_PAGAMENTO = Some col \<longrightarrow>
            tipo_pagamento s = (case row col of None \<Rightarrow> NAO_INFORMADO | Some c \<Rightarrow> py_str fr c)) \<and>
         (\<forall>col. system_to_sheet m F_VENDEDOR = Some col \<longrightarrow>
            nome_vendedor s = (case row col of None \<Rightarrow> IMPORTADO | Some c \<Rightarrow> py_str fr c))"
proof -
  from assms have "convert_row fr (now j) (system_to_sheet m) row = Inr (Some s)"
    by (simp add: row_conv_def)
  then have pg: "tipo_pagamento s = get_optional fr (system_to_sheet m) row F_PAGAMENTO NAO_INFORMADO"
    and vd: "nome_vendedor s = get_optional fr (system_to_sheet m) row F_VENDEDOR IMPORTADO"
    by (auto elim: convert_row_Some)
  have 1: "tipo_pagamento s = NAO_INFORMADO" if "F_PAGAMENTO \<notin> snd ` set m"
  proof -
    have "system_to_sheet m F_PAGAMENTO = None"
      using that system_to_sheet_None[of m F_PAGAMENTO] by blast
    then show ?thesis by (simp add: pg get_optional_def)
  qed
  have 2: "nome_vendedor s = IMPORTADO" if "F_VENDEDOR \<notin> snd ` set m"
  proof -
    have "system_to_sheet m F_VENDEDOR = None"
      using that system_to_sheet_None[of m F_VENDEDOR] by blast
    then show ?thesis by (simp add: vd get_optional_def)
  qed
  have 3: "tipo_pagamento s = (case row col of None \<Rightarrow> NAO_INFORMADO | Some c \<Rightarrow> py_str fr c)"
    if "system_to_sheet m F_PAGAMENTO = Some col" for col
    using that by (simp add: pg get_optional_def)
  have 4: "nome_vendedor s = (case row col of None \<Rightarrow> IMPORTADO | Some c \<Rightarrow> py_str fr c)"
    if "system_to_sheet m F_VENDEDOR = Some col" for col
    using that by (simp add: vd get_optional_def)
  from 1 2 3 4 show ?thesis by blast
qed

text \<open>The example row under the example mapping, which maps neither optional field.\<close>

theorem optional_fields_default_when_unmapped_witness:
  "row_conv ex_repr ex_now ex_mapping 0 ex_row = Inr (Some (ex_sale (ex_now 0))) \<and>
   F_PAGAMENTO \<notin> snd ` set ex_mapping \<and> F_VENDEDOR \<notin> snd ` set ex_mapping \<and>
   tipo_pagamento (ex_sale (ex_now 0)) = NAO_INFORMADO \<and>
   nome_vendedor (ex_sale (ex_now 0)) = IMPORTADO"
proof -
  have unmapped: "F_PAGAMENTO \<notin> snd ` set ex_mapping" "F_VENDEDOR \<notin> snd ` set ex_mapping"
    by (simp_all add: ex_mapping_def)
  have conv: "row_conv ex_repr ex_now ex_mapping 0 ex_row = Inr (Some (ex_sale (ex_now 0)))"
    by (rule conv_ex_row)
  from optional_fields_default_when_unmapped[OF conv] unmapped conv show ?thesis
    by blast
qed

text \<open>
  Claim C7 as stated fails: with Payment Type mapped to a column whose cell is the empty
  text, the converted row has the empty text as its payment type, not the sentinel.
\<close>

theorem empty_payment_cell_is_kept_counterexample:
  "row_conv ex_repr ex_now (ex_mapping @ [(''Pagamento'', F_PAGAMENTO)]) 0
      (ex_row(''Pagamento'' \<mapsto> CStr [])) =
     Inr (Some ((ex_sale (ex_now 0))\<lparr>tipo_pagamento := []\<rparr>)) \<and>
   tipo_pagamento ((ex_sale (ex_now 0))\<lparr>tipo_pagamento := []\<rparr>) \<noteq> NAO_INFORMADO"
  by (simp add: row_eval)




lemma row_conv_Some:
  assumes "row_conv fr now m j row = Inr (Some s)"
  obtains qcol vcol q v where
    "system_to_sheet m F_QUANTIDADE = Some qcol" "row qcol = Some q" "py_int q = Inr (quantidade s)"
    "system_to_sheet m F_VALOR = Some vcol" "row vcol = Some v"
    "parse_price (py_str fr v) = Inr (preco s)"
    "0 < quantidade s" "\<not> float_lt_zero (preco s)"
    "int_mul_float (quantidade s) (preco s) = Inr (preco_final s)"
proof -
  from assms have "convert_row fr (now j) (system_to_sheet m) row = Inr (Some s)"
    by (simp add: row_conv_def)
  then show thesis
    by (rule convert_row_Some) (rule that)
qed















lemma replace_char_idem: "replace_char a b (replace_char a b x) = replace_char a b x"
  by (induction x) auto

text \<open>
  Claim C6. For any row whose mapped Quantity cell is \<open>3\<close> and whose mapped Unit Value
  cell is \<open>10,50\<close>, the tuple that row conversion produces has quantity 3, unit price
  10.5 and final price 31.5; it produces one exactly when the row has, under the columns
  of Client Name and Product Name, cells whose texts are not empty. \<open>10,50\<close> and \<open>10.50\<close> both parse to 10.5,
  and a text parses as the same text with its commas turned into points. The final price
  of every converted row is its quantity times its unit price, as the multiplication of
  an \<open>int\<close> by a \<open>float\<close> gives it.
\<close>

theorem quantity_3_unit_value_10_50:
  assumes "system_to_sheet m F_QUANTIDADE = Some qcol" "row qcol = Some (CStr ''3'')"
    and "system_to_sheet m F_VALOR = Some vcol" "row vcol = Some (CStr ''10,50'')"
  shows "(\<forall>s. row_conv fr now m j row = Inr (Some s) \<longrightarrow>
            quantidade s = 3 \<and> preco s = Finite (21 / 2) \<and> preco_final s = Finite (63 / 2)) \<and>
         ((\<exists>s. row_conv fr now m j row = Inr (Some s)) \<longleftrightarrow>
          (\<exists>ccol c pcol p. system_to_sheet m F_CLIENTE = Some ccol \<and> row ccol = Some c \<and>
             py_str fr c \<noteq> [] \<and> system_to_sheet m F_PRODUTO = Some pcol \<and> row pcol = Some p \<and>
             py_str fr p \<noteq> [])) \<and>
         parse_price ''10,50'' = Inr (Finite (21 / 2)) \<and>
         parse_price ''10.50'' = Inr (Finite (21 / 2)) \<and>
         (\<forall>x. parse_price (replace_char CHR '','' CHR ''.'' x) = parse_price x) \<and>
         (\<forall>row' j' s'. row_conv fr now m j' row' = Inr (Some s') \<longrightarrow>
            int_mul_float (quantidade s') (preco s') = Inr (preco_final s'))"
proof -
  have q: "py_int (CStr ''3'') = Inr 3"
    by (simp add: py_int_def parse_eval)
  have v: "parse_price ''10,50'' = Inr (Finite (21 / 2))" "parse_price ''10.50'' = Inr (Finite (21 / 2))"
    by (simp_all add: parse_price_def parse_eval float_eval)
  have t: "int_mul_float 3 (Finite (21 / 2)) = Inr (Finite (63 / 2))"
    by (simp add: int_mul_float_def int_to_float_def float_mul_def bind_exc_def float_eval)
  have vals: "quantidade s = 3 \<and> preco s = Finite (21 / 2) \<and> preco_final s = Finite (63 / 2)"
    if "row_conv fr now m j row = Inr (Some s)" for s
  proof -
    from that have c: "convert_row fr (now j) (system_to_sheet m) row = Inr (Some s)"
      by (simp add: row_conv_def)
    from c obtain q' v' where
      "row qcol = Some q'" "py_int q' = Inr (quantidade s)"
      "row vcol = Some v'" "parse_price (py_str fr v') = Inr (preco s)"
      "int_mul_float (quantidade s) (preco s) = Inr (preco_final s)"
      using assms(1,3) by (elim convert_row_Some) simp
    with assms(2,4) q v t show ?thesis by (simp add: py_str_def)
  qed
  have names: "\<exists>ccol c pcol p. system_to_sheet m F_CLIENTE = Some ccol \<and> row ccol = Some c \<and>
             py_str fr c \<noteq> [] \<and> system_to_sheet m F_PRODUTO = Some pcol \<and> row pcol = Some p \<and>
             py_str fr p \<noteq> []"
    if "row_conv fr now m j row = Inr (Some s)" for s
  proof -
    from that have c: "convert_row fr (now j) (system_to_sheet m) row = Inr (Some s)"
      by (simp add: row_conv_def)
    then show ?thesis by (elim convert_row_Some) blast
  qed
  have conv: "\<exists>s. row_conv fr now m j row = Inr (Some s)"
    if "system_to_sheet m F_CLIENTE = Some ccol" "row ccol = Some c" "py_str fr c \<noteq> []"
      "system_to_sheet m F_PRODUTO = Some pcol" "row pcol = Some p" "py_str fr p \<noteq> []"
    for ccol c pcol p
    using assms that
    by (simp add: row_conv_def convert_row_def bind_exc_def getitem_def q v t py_str_def
        float_lt_zero_def)
  have rep: "parse_price (replace_char CHR '','' CHR ''.'' x) = parse_price x" for x
    by (simp add: parse_price_def replace_char_idem)
  have prod: "int_mul_float (quantidade s') (preco s') = Inr (preco_final s')"
    if "row_conv fr now m j' row' = Inr (Some s')" for row' j' s'
    using that by (elim row_conv_Some)
  show ?thesis
    using vals names conv rep prod v by blast
qed

text \<open>The example row.\<close>

theorem quantity_3_unit_value_10_50_witness:
  "system_to_sheet ex_mapping F_QUANTIDADE = Some ''Qtd'' \<and> ex_row ''Qtd'' = Some (CStr ''3'') \<and>
   system_to_sheet ex_mapping F_VALOR = Some ''Valor'' \<and> ex_row ''Valor'' = Some (CStr ''10,50'') \<and>
   row_conv ex_repr ex_now ex_mapping 0 ex_row = Inr (Some (ex_sale (ex_now 0))) \<and>
   quantidade (ex_sale (ex_now 0)) = 3 \<and> preco (ex_sale (ex_now 0)) = Finite (21 / 2) \<and>
   preco_final (ex_sale (ex_now 0)) = Finite (63 / 2)"
proof -
  have h: "system_to_sheet ex_mapping F_QUANTIDADE = Some ''Qtd''" "ex_row ''Qtd'' = Some (CStr ''3'')"
    "system_to_sheet ex_mapping F_VALOR = Some ''Valor''" "ex_row ''Valor'' = Some (CStr ''10,50'')"
    by (simp_all add: system_to_sheet_def ex_mapping_def ex_row_def)
  have c: "row_conv ex_repr ex_now ex_mapping 0 ex_row = Inr (Some (ex_sale (ex_now 0)))"
    by (rule conv_ex_row)
  from quantity_3_unit_value_10_50[OF h, of ex_repr ex_now 0] c
  have "quantidade (ex_sale (ex_now 0)) = 3 \<and> preco (ex_sale (ex_now 0)) = Finite (21 / 2) \<and>
        preco_final (ex_sale (ex_now 0)) = Finite (63 / 2)"
    by blast
  with h c show ?thesis by blast
qed

section \<open>The end of the import: properties\<close>

lemma ui_import_rows_Progress:
  "set (ui (import_rows conv i df st)) \<subseteq> set (ui st) \<union> range Progress"
proof (induction df arbitrary: i st)
  case Nil
  show ?case by simp
next
  case (Cons row df)
  show ?case
  proof (cases "conv i row")
    case (Inl e)
    with Cons.IH[of "Suc i" "st\<lparr>console := console st @ [(i + 2, e)]\<rparr>"] show ?thesis
      by (cases "caught e") auto
  next
    case (Inr so)
    show ?thesis
    proof (cases so)
      case None
      with Inr Cons.IH[of "Suc i" st] show ?thesis by simp
    next
      case (Some s)
      with Inr Cons.IH[of "Suc i"
          "st\<lparr>sales_to_insert := sales_to_insert st @ [s], ui := ui st @ [Progress (i + 1)]\<rparr>"]
      show ?thesis by auto
    qed
  qed
qed

lemma ui_run_rows_Progress: "set (ui (run_rows fr now df m)) \<subseteq> range Progress"
  using ui_import_rows_Progress[of "row_conv fr now m" 0 df initial_state]
  by (simp add: run_rows_def initial_state_def)

text \<open>
  Claim C8, amended. When the batch is empty after Execute, the import commits nothing,
  leaves the store as it was and shows one warning (the text "no valid record found"),
  which is neither the success dialog nor the error dialog; what it shows is the same
  whether every row was skipped or the file had no rows.
\<close>

theorem empty_batch_shows_one_warning:
  assumes "uncaught (run_rows fr now df m) = None" "sales_to_insert (run_rows fr now df m) = []"
  shows "snd (worker_import fr now fault db df m) = db \<and>
         ui (fst (worker_import fr now fault db df m)) = [ShowWarning, DestroyProgress, RefreshTable] \<and>
         ui (fst (worker_import fr now fault db df m)) = ui (fst (worker_import fr now fault db [] m))"
  using assms no_sales_no_progress[OF assms(2)]
  by (simp add: worker_import_def Let_def run_rows_def[of fr now "[]"] initial_state_def)

text \<open>Two rows, both skipped.\<close>

theorem empty_batch_shows_one_warning_witness:
  "uncaught (run_rows ex_repr ex_now [ex_row(''Qtd'' \<mapsto> CStr ''0''), ex_row(''Qtd'' \<mapsto> CStr ''abc'')] ex_mapping) = None \<and>
   sales_to_insert (run_rows ex_repr ex_now [ex_row(''Qtd'' \<mapsto> CStr ''0''), ex_row(''Qtd'' \<mapsto> CStr ''abc'')] ex_mapping) = [] \<and>
   snd (worker_import ex_repr ex_now no_fault ex_db
          [ex_row(''Qtd'' \<mapsto> CStr ''0''), ex_row(''Qtd'' \<mapsto> CStr ''abc'')] ex_mapping) = ex_db \<and>
   ui (fst (worker_import ex_repr ex_now no_fault ex_db
          [ex_row(''Qtd'' \<mapsto> CStr ''0''), ex_row(''Qtd'' \<mapsto> CStr ''abc'')] ex_mapping))
     = [ShowWarning, DestroyProgress, RefreshTable]"
proof -
  have u: "uncaught (run_rows ex_repr ex_now [ex_row(''Qtd'' \<mapsto> CStr ''0''), ex_row(''Qtd'' \<mapsto> CStr ''abc'')] ex_mapping) = None"
    and s: "sales_to_insert (run_rows ex_repr ex_now [ex_row(''Qtd'' \<mapsto> CStr ''0''), ex_row(''Qtd'' \<mapsto> CStr ''abc'')] ex_mapping) = []"
    by (simp_all add: run_rows_def initial_state_def ex_conv caught_def)
  from empty_batch_shows_one_warning[OF u s, of no_fault ex_db] u s show ?thesis by simp
qed

text \<open>
  Claim C8 as stated fails: a file of two rows that are both skipped by the validity test
  and a file without rows end in the same dialogs and the same (empty) console.
\<close>

theorem all_skipped_looks_like_no_rows_counterexample:
  "ui (fst (worker_import ex_repr ex_now no_fault ex_db
          [ex_row(''Valor'' \<mapsto> CStr ''-5''), ex_row(''Qtd'' \<mapsto> CStr ''0'')] ex_mapping))
     = [ShowWarning, DestroyProgress, RefreshTable] \<and>
   ui (fst (worker_import ex_repr ex_now no_fault ex_db [] ex_mapping))
     = [ShowWarning, DestroyProgress, RefreshTable] \<and>
   console (fst (worker_import ex_repr ex_now no_fault ex_db
          [ex_row(''Valor'' \<mapsto> CStr ''-5''), ex_row(''Qtd'' \<mapsto> CStr ''0'')] ex_mapping)) = [] \<and>
   console (fst (worker_import ex_repr ex_now no_fault ex_db [] ex_mapping)) = []"
  by (simp add: worker_import_def run_rows_def initial_state_def ex_conv)


section \<open>The record store: properties\<close>

lemma executemany_appends:
  "\<exists>new. rows (snd (executemany fault t ss)) = rows t @ new"
proof (induction ss arbitrary: t)
  case Nil
  show ?case by simp
next
  case (Cons s ss)
  from Cons[of "insert_row t s"] show ?case
    by (auto simp: insert_row_def)
qed

lemma insert_multiple_sales_cases:
  obtains (committed) t where "executemany fault (case txn db of None \<Rightarrow> stored db | Some t \<Rightarrow> t) ss = (ExecOk, t)"
      "insert_multiple_sales fault db ss = (Inr True, \<lparr>stored = t, txn = None\<rparr>, [])"
  | (rolled_back) "insert_multiple_sales fault db ss = (Inr False, db\<lparr>txn := None\<rparr>, [ShowError])"
  | (raised) e t where "executemany fault (case txn db of None \<Rightarrow> stored db | Some t \<Rightarrow> t) ss = (OtherError e, t)"
      "insert_multiple_sales fault db ss = (Inl e, db\<lparr>txn := Some t\<rparr>, [])"
proof -
  obtain r t where ex: "executemany fault (case txn db of None \<Rightarrow> stored db | Some t \<Rightarrow> t) ss = (r, t)"
    by (cases "executemany fault (case txn db of None \<Rightarrow> stored db | Some t \<Rightarrow> t) ss")
  show thesis
  proof (cases r)
    case ExecOk
    show ?thesis
    proof (cases "fault t COMMIT")
      case True
      with ex ExecOk show ?thesis by (intro rolled_back) (simp add: insert_multiple_sales_def)
    next
      case False
      with ex ExecOk show ?thesis by (intro committed[of t]) (simp_all add: insert_multiple_sales_def)
    qed
  next
    case SqliteError
    with ex show ?thesis by (intro rolled_back) (simp add: insert_multiple_sales_def)
  next
    case (OtherError e)
    with ex show ?thesis by (intro raised[of e t]) (simp_all add: insert_multiple_sales_def)
  qed
qed

lemma failed_insert_keeps_stored:
  assumes "fst (insert_multiple_sales fault db ss) \<noteq> Inr True"
  shows "stored (fst (snd (insert_multiple_sales fault db ss))) = stored db"
  using assms by (cases fault db ss rule: insert_multiple_sales_cases) simp_all

lemma reported_failure_rolls_back:
  assumes "fst (insert_multiple_sales fault db ss) = Inr False"
  shows "insert_multiple_sales fault db ss = (Inr False, db\<lparr>txn := None\<rparr>, [ShowError])"
  using assms by (cases fault db ss rule: insert_multiple_sales_cases) simp_all

text \<open>
  When the bulk insert of the batch does not succeed, the committed table is what it was
  before and no success is reported. When the store reports the failure
  (\<open>insert_multiple_sales\<close> returns \<open>False\<close>), the transaction has been rolled back, so
  the connection is as it was and without open transaction, the error dialog is shown,
  and the worker goes on to close the progress window without a second attempt.
\<close>

lemma reported_failure_is_rolled_back:
  assumes "uncaught (run_rows fr now df m) = None"
    and "fst (insert_multiple_sales fault db (sales_to_insert (run_rows fr now df m))) \<noteq> Inr True"
  shows "stored (snd (worker_import fr now fault db df m)) = stored db \<and>
         (\<forall>n. ShowInfo n \<notin> set (ui (fst (worker_import fr now fault db df m)))) \<and>
         (sales_to_insert (run_rows fr now df m) \<noteq> [] \<and>
          fst (insert_multiple_sales fault db (sales_to_insert (run_rows fr now df m))) = Inr False \<longrightarrow>
            snd (worker_import fr now fault db df m) = db\<lparr>txn := None\<rparr> \<and>
            ui (fst (worker_import fr now fault db df m)) =
              ui (run_rows fr now df m) @ [ShowError, DestroyProgress, RefreshTable])"
proof -
  let ?st = "run_rows fr now df m"
  let ?ss = "sales_to_insert ?st"
  have prog: "ShowInfo n \<notin> set (ui ?st)" for n
    using ui_run_rows_Progress[of fr now df m] by auto
  show ?thesis
  proof (cases "?ss = []")
    case True
    with assms(1) prog show ?thesis
      by (simp add: worker_import_def Let_def)
  next
    case False
    show ?thesis
    proof (cases fault db ?ss rule: insert_multiple_sales_cases)
      case (committed t)
      with assms(2) show ?thesis by simp
    next
      case rolled_back
      with assms(1) False prog show ?thesis
        by (simp add: worker_import_def Let_def)
    next
      case (raised e t)
      with assms(1) False prog show ?thesis
        by (simp add: worker_import_def Let_def)
    qed
  qed
qed

lemma run_two_ex_rows:
  "run_rows ex_repr ex_now [ex_row, ex_row] ex_mapping =
     \<lparr>sales_to_insert = [ex_sale (ex_now 0), ex_sale (ex_now (Suc 0))], console = [],
      ui = [Progress 1, Progress 2], uncaught = None\<rparr>"
  by (simp add: run_rows_def initial_state_def ex_conv)

lemma second_insert_fails_two:
  "insert_multiple_sales second_insert_fails ex_db [ex_sale t1, ex_sale t2] =
     (Inr False, ex_db, [ShowError])"
  by (simp add: insert_multiple_sales_def ex_db_def second_insert_fails_def fits_int64_def
      ex_sale_def insert_row_def)

text \<open>Two valid rows, and an engine that fails the second \<open>INSERT\<close>: the first
  insert is undone with the rest.\<close>

lemma second_insert_fails_example:
  "uncaught (run_rows ex_repr ex_now [ex_row, ex_row] ex_mapping) = None \<and>
   fst (insert_multiple_sales second_insert_fails ex_db
          (sales_to_insert (run_rows ex_repr ex_now [ex_row, ex_row] ex_mapping))) = Inr False \<and>
   snd (worker_import ex_repr ex_now second_insert_fails ex_db [ex_row, ex_row] ex_mapping) = ex_db \<and>
   ui (fst (worker_import ex_repr ex_now second_insert_fails ex_db [ex_row, ex_row] ex_mapping)) =
     [Progress 1, Progress 2, ShowError, DestroyProgress, RefreshTable]"
proof -
  have u: "uncaught (run_rows ex_repr ex_now [ex_row, ex_row] ex_mapping) = None"
    by (simp add: run_two_ex_rows)
  have f: "fst (insert_multiple_sales second_insert_fails ex_db
          (sales_to_insert (run_rows ex_repr ex_now [ex_row, ex_row] ex_mapping))) = Inr False"
    by (simp add: run_two_ex_rows second_insert_fails_two)
  then have f': "fst (insert_multiple_sales second_insert_fails ex_db
          (sales_to_insert (run_rows ex_repr ex_now [ex_row, ex_row] ex_mapping))) \<noteq> Inr True"
    by simp
  have c: "ex_db\<lparr>txn := None\<rparr> = ex_db" by (simp add: ex_db_def)
  from reported_failure_is_rolled_back[OF u f'] u f c show ?thesis
    by (simp add: run_two_ex_rows)
qed

lemma conv_big_row: "row_conv fr now ex_mapping j ex_big_row = Inr (Some (ex_big_sale (now j)))"
  by (simp add: ex_big_row_def ex_big_sale_def row_eval)

lemma run_big_batch:
  "run_rows ex_repr ex_now [ex_row, ex_big_row] ex_mapping =
     \<lparr>sales_to_insert = [ex_sale (ex_now 0), ex_big_sale (ex_now (Suc 0))], console = [],
      ui = [Progress 1, Progress 2], uncaught = None\<rparr>"
  by (simp add: run_rows_def initial_state_def ex_conv conv_big_row)

lemma insert_big_batch:
  "insert_multiple_sales no_fault ex_db [ex_sale t1, ex_big_sale t2] =
     (Inl OverflowError,
      ex_db\<lparr>txn := Some \<lparr>rows = rows (stored ex_db) @ [(2, ex_sale t1)], seq = 2\<rparr>\<rparr>, [])"
  by (simp add: insert_multiple_sales_def ex_db_def no_fault_def fits_int64_def
      ex_sale_def ex_big_sale_def insert_row_def)

lemma run_one_ex_row:
  "run_rows ex_repr ex_now [ex_row] ex_mapping =
     \<lparr>sales_to_insert = [ex_sale (ex_now 0)], console = [], ui = [Progress 1], uncaught = None\<rparr>"
  by (simp add: run_rows_def initial_state_def ex_conv)

lemma insert_after_big_batch:
  "insert_multiple_sales no_fault
     (ex_db\<lparr>txn := Some \<lparr>rows = rows (stored ex_db) @ [(2, ex_sale t1)], seq = 2\<rparr>\<rparr>) [ex_sale t2] =
     (Inr True,
      \<lparr>stored = \<lparr>rows = rows (stored ex_db) @ [(2, ex_sale t1), (3, ex_sale t2)], seq = 3\<rparr>,
       txn = None\<rparr>, [])"
  by (simp add: insert_multiple_sales_def ex_db_def no_fault_def fits_int64_def
      ex_sale_def insert_row_def)

text \<open>
  Claim C3 on a batch of two valid rows, the second with the quantity \<open>2^63\<close>. The bulk
  insert fails: binding that quantity raises \<open>OverflowError\<close>, which is no
  \<open>sqlite3.Error\<close>, so \<open>insert_multiple_sales\<close> neither rolls back nor returns. The
  worker ends on the exception with the progress window open. Nothing is committed at
  that moment, but the first row of the batch stays inserted in the open transaction,
  and the next import, of one valid row, commits it together with its own row: of the
  failed batch one row is committed and the other is not.
\<close>

theorem overflowing_quantity_leaves_batch_half_inserted:
  "fst (insert_multiple_sales no_fault ex_db
          (sales_to_insert (run_rows ex_repr ex_now [ex_row, ex_big_row] ex_mapping)))
     = Inl OverflowError \<and>
   uncaught (fst (worker_import ex_repr ex_now no_fault ex_db [ex_row, ex_big_row] ex_mapping))
     = Some OverflowError \<and>
   ui (fst (worker_import ex_repr ex_now no_fault ex_db [ex_row, ex_big_row] ex_mapping))
     = [Progress 1, Progress 2] \<and>
   snd (worker_import ex_repr ex_now no_fault ex_db [ex_row, ex_big_row] ex_mapping)
     = ex_db\<lparr>txn := Some \<lparr>rows = rows (stored ex_db) @ [(2, ex_sale (ex_now 0))], seq = 2\<rparr>\<rparr> \<and>
   snd (worker_import ex_repr ex_now no_fault
          (snd (worker_import ex_repr ex_now no_fault ex_db [ex_row, ex_big_row] ex_mapping))
          [ex_row] ex_mapping)
     = \<lparr>stored = \<lparr>rows = rows (stored ex_db) @ [(2, ex_sale (ex_now 0)), (3, ex_sale (ex_now 0))],
                  seq = 3\<rparr>,
        txn = None\<rparr>"
proof -
  have first: "worker_import ex_repr ex_now no_fault ex_db [ex_row, ex_big_row] ex_mapping =
      (\<lparr>sales_to_insert = [ex_sale (ex_now 0), ex_big_sale (ex_now (Suc 0))], console = [],
        ui = [Progress 1, Progress 2], uncaught = Some OverflowError\<rparr>,
       ex_db\<lparr>txn := Some \<lparr>rows = rows (stored ex_db) @ [(2, ex_sale (ex_now 0))], seq = 2\<rparr>\<rparr>)"
    by (simp add: worker_import_def run_big_batch insert_big_batch)
  have second: "snd (worker_import ex_repr ex_now no_fault
        (ex_db\<lparr>txn := Some \<lparr>rows = rows (stored ex_db) @ [(2, ex_sale (ex_now 0))], seq = 2\<rparr>\<rparr>)
        [ex_row] ex_mapping) =
      \<lparr>stored = \<lparr>rows = rows (stored ex_db) @ [(2, ex_sale (ex_now 0)), (3, ex_sale (ex_now 0))],
                 seq = 3\<rparr>,
       txn = None\<rparr>"
    by (simp add: worker_import_def run_one_ex_row insert_after_big_batch)
  show ?thesis
    by (simp add: first second run_big_batch insert_big_batch)
qed


lemma extends_iff: "extends t' t \<longleftrightarrow> (\<exists>new. rows t' = rows t @ new)"
proof
  assume "extends t' t"
  then have "rows t' = rows t @ drop (length (rows t)) (rows t')"
    by (metis append_take_drop_id extends_def)
  then show "\<exists>new. rows t' = rows t @ new" ..
next
  assume "\<exists>new. rows t' = rows t @ new"
  then show "extends t' t" by (auto simp: extends_def)
qed

lemma extends_refl: "extends t t"
  by (simp add: extends_def)

lemma extends_trans: "extends t'' t' \<Longrightarrow> extends t' t \<Longrightarrow> extends t'' t"
  by (auto simp: extends_iff)

lemma executemany_extends: "extends (snd (executemany fault t ss)) t"
  using executemany_appends[of fault t ss] by (simp add: extends_iff)

text \<open>
  Claim C10. On a connection that is in order (no open transaction, or one that has only
  added rows), whatever the mapping and the rows, and whether the batch commits, fails or
  is empty (or the worker ends on an exception), the committed table after the import is
  the committed table before it followed by new rows: no row that was there is changed
  or removed. The connection is in order afterwards as well.
\<close>

theorem import_only_appends:
  assumes "appends_only db"
  shows "(\<exists>new. rows (stored (snd (worker_import fr now fault db df m))) = rows (stored db) @ new) \<and>
         appends_only (snd (worker_import fr now fault db df m))"
proof -
  let ?st = "run_rows fr now df m"
  let ?ss = "sales_to_insert ?st"
  let ?view = "case txn db of None \<Rightarrow> stored db | Some t \<Rightarrow> t"
  have view: "extends ?view (stored db)"
    using assms by (auto simp: appends_only_def extends_refl split: option.splits)
  have goal: "extends (stored db') (stored db) \<and> appends_only db' \<Longrightarrow>
      (\<exists>new. rows (stored db') = rows (stored db) @ new) \<and> appends_only db'" for db'
    by (simp add: extends_iff)
  show ?thesis
  proof (cases "uncaught ?st \<noteq> None \<or> ?ss = []")
    case True
    then have "snd (worker_import fr now fault db df m) = db"
      by (auto simp: worker_import_def Let_def)
    with assms show ?thesis by (simp add: goal extends_refl)
  next
    case False
    then have go: "uncaught ?st = None" "?ss \<noteq> []" by auto
    show ?thesis
    proof (cases fault db ?ss rule: insert_multiple_sales_cases)
      case (committed t)
      from executemany_extends[of fault ?view ?ss] committed(1)
      have "extends t ?view" by simp
      then have "extends t (stored db)" using view by (rule extends_trans)
      with committed(2) go show ?thesis
        by (intro goal) (simp add: worker_import_def Let_def appends_only_def)
    next
      case rolled_back
      with go show ?thesis
        by (intro goal) (simp add: worker_import_def Let_def appends_only_def extends_refl)
    next
      case (raised e t)
      from executemany_extends[of fault ?view ?ss] raised(1)
      have "extends t ?view" by simp
      then have "extends t (stored db)" using view by (rule extends_trans)
      with raised(2) go show ?thesis
        by (intro goal) (simp add: worker_import_def Let_def appends_only_def extends_refl)
    qed
  qed
qed

lemma commit_two_ex_rows:
  "insert_multiple_sales no_fault ex_db [ex_sale t1, ex_sale t2] =
     (Inr True,
      \<lparr>stored = \<lparr>rows = rows (stored ex_db) @ [(2, ex_sale t1), (3, ex_sale t2)],
                 seq = 3\<rparr>, txn = None\<rparr>, [])"
  by (simp add: insert_multiple_sales_def ex_db_def no_fault_def fits_int64_def
      ex_sale_def insert_row_def)

text \<open>The store with one sale, and an import of two valid rows that commits.\<close>

theorem import_only_appends_witness:
  "appends_only ex_db \<and>
   rows (stored (snd (worker_import ex_repr ex_now no_fault ex_db [ex_row, ex_row] ex_mapping))) =
     rows (stored ex_db) @ [(2, ex_sale (ex_now 0)), (3, ex_sale (ex_now 1))] \<and>
   txn (snd (worker_import ex_repr ex_now no_fault ex_db [ex_row, ex_row] ex_mapping)) = None"
proof -
  have c: "appends_only ex_db" by (simp add: appends_only_def ex_db_def)
  from import_only_appends[OF c, of ex_repr ex_now no_fault "[ex_row, ex_row]" ex_mapping] c
  show ?thesis
    by (simp add: worker_import_def run_two_ex_rows commit_two_ex_rows)
qed


end
